theory Spec2Isabelle
  imports Complex_Main
begin

section \<open>Python values and exceptions\<close>

text \<open>
  Both modules are Python. A Python \<open>float\<close> is modelled as a \<open>real\<close>: every float
  of the model is finite, and rounding, the two infinities and NaN are outside the model. In
  particular an \<open>SLO\<close>, an estimate, a loss and a threshold hold finite numbers, and every
  statement below about "every SLO" is about every SLO with finite bounds. An \<open>int\<close> is an
  \<open>int\<close>, a \<open>str\<close> a \<open>string\<close>. Every \<open>raise\<close> of the source, and every exception
  raised by a builtin that the source calls, is a value \<open>Inl e\<close> of a sum type.
\<close>

datatype exn =
    ValueError string
  | KeyError string
  | TypeError string
  | ZeroDivisionError
  | OverflowError
  | AdapterError string

text \<open>
  The values stored in the untyped dictionaries (\<open>Intent.payload\<close>, \<open>Action.params\<close>,
  the scheduler's \<open>context\<close>): the kinds that \<open>Intent.bandwidth\<close> and the demos put there.
\<close>

datatype pyval = PNone | PStr string | PInt int | PFloat real

text \<open>
  The builtin \<open>float(v)\<close>. On \<open>None\<close> it raises TypeError. On a \<open>str\<close> it parses a
  literal or raises ValueError; the parser belongs to the language, not to this repository,
  and is the parameter \<open>str2float\<close> of every function that converts. On an \<open>int\<close> it
  rounds to the nearest double and raises OverflowError when that is beyond the largest one,
  \<open>2^1024 - 2^971\<close>: from the midpoint \<open>2^1024 - 2^970\<close> on, an int rounds to \<open>2^1024\<close>.
\<close>

definition int_float_limit :: int where
  "int_float_limit = 2 ^ 1024 - 2 ^ 970"

definition py_float :: "(string \<Rightarrow> real option) \<Rightarrow> pyval \<Rightarrow> exn + real" where
  "py_float str2float v =
     (case v of
        PNone \<Rightarrow> Inl (TypeError ''float() argument must be a string or a real number'')
      | PStr s \<Rightarrow>
          (case str2float s of
             None \<Rightarrow> Inl (ValueError ''could not convert string to float'')
           | Some r \<Rightarrow> Inr r)
      | PInt i \<Rightarrow>
          (if \<bar>i\<bar> < int_float_limit then Inr (real_of_int i) else Inl OverflowError)
      | PFloat r \<Rightarrow> Inr r)"

text \<open>\<open>d.get(key, default)\<close> on a dictionary.\<close>

definition dict_get :: "('k \<rightharpoonup> 'v) \<Rightarrow> 'k \<Rightarrow> 'v \<Rightarrow> 'v" where
  "dict_get d k dflt = (case d k of None \<Rightarrow> dflt | Some v \<Rightarrow> v)"

text \<open>Sequencing of computations that may raise.\<close>

definition bindE :: "exn + 'a \<Rightarrow> ('a \<Rightarrow> exn + 'b) \<Rightarrow> exn + 'b" where
  "bindE m f = (case m of Inl e \<Rightarrow> Inl e | Inr x \<Rightarrow> f x)"

text \<open>
  The builtin \<open>max(xs, key=f)\<close>: the running best is replaced only by a strictly greater
  key, so the first maximum wins; on an empty sequence it raises ValueError.
\<close>

fun max_from :: "('a \<Rightarrow> real) \<Rightarrow> 'a \<Rightarrow> 'a list \<Rightarrow> 'a" where
  "max_from key best [] = best"
| "max_from key best (x # xs) = max_from key (if key best < key x then x else best) xs"

definition py_max :: "('a \<Rightarrow> real) \<Rightarrow> 'a list \<Rightarrow> exn + 'a" where
  "py_max key xs =
     (case xs of
        [] \<Rightarrow> Inl (ValueError ''max() arg is an empty sequence'')
      | x # rest \<Rightarrow> Inr (max_from key x rest))"

section \<open>scheduler_baselines.py\<close>

record SLO =
  latency_p95_ms :: real
  cost_per_1k :: real
  energy_j_max :: real

text \<open>An estimate \<open>{"lat_ms": .., "cost": .., "energy": ..}\<close> with float values.\<close>

record est =
  lat_ms :: real
  cost :: real
  energy :: real

text \<open>
  \<open>score\<close>: the three penalties divide by a floored SLO bound; the final \<open>1.0 / ..\<close>
  raises ZeroDivisionError when the weighted sum is zero.
\<close>

definition score :: "est \<Rightarrow> SLO \<Rightarrow> exn + real" where
  "score e slo =
     (let lat_pen = lat_ms e / max (latency_p95_ms slo) (1 / 1000000);
          cost_pen = cost e / max (cost_per_1k slo) (1 / 1000000000);
          energy_pen = energy e / max (energy_j_max slo) (1 / 1000000000);
          total = 0.55 * lat_pen + 0.30 * cost_pen + 0.15 * energy_pen
      in if total = 0 then Inl ZeroDivisionError else Inr (1 / total))"

text \<open>\<open>Models.mean\<close>, the table of base estimates.\<close>

definition mean :: "string \<rightharpoonup> est" where
  "mean = [''photonic'' \<mapsto> \<lparr>lat_ms = 0.4, cost = 0.0002, energy = 1.0\<rparr>,
           ''gpu'' \<mapsto> \<lparr>lat_ms = 1.2, cost = 0.0005, energy = 5.0\<rparr>,
           ''cpu'' \<mapsto> \<lparr>lat_ms = 4.0, cost = 0.0001, energy = 2.0\<rparr>]"

text \<open>
  \<open>x ** y\<close> on floats with a fractional exponent (the source uses 0.5 and 0.6): a
  negative base gives a Python \<open>complex\<close>, zero gives zero, a positive base the real power.
  A complex number stays complex under the multiplications and additions that follow, so
  only the fact that a value is complex is kept.
\<close>

datatype pynum = Flt real | Cplx

definition py_pow :: "real \<Rightarrow> real \<Rightarrow> pynum" where
  "py_pow x y = (if x < 0 then Cplx else Flt (x powr y))"

definition num_mul :: "pynum \<Rightarrow> pynum \<Rightarrow> pynum" where
  "num_mul a b = (case (a, b) of (Flt x, Flt y) \<Rightarrow> Flt (x * y) | _ \<Rightarrow> Cplx)"

text \<open>
  What \<open>Models.estimate\<close> returns: a dictionary of three floats, or, when the load is
  complex, a dictionary whose three values are complex.
\<close>

datatype estimate_val = RealEst est | ComplexEst

definition estimate ::
  "(string \<Rightarrow> real option) \<Rightarrow> string \<Rightarrow> (string \<rightharpoonup> pyval) \<Rightarrow> exn + estimate_val" where
  "estimate str2float target context =
     (case mean target of
        None \<Rightarrow> Inl (KeyError target)
      | Some base \<Rightarrow>
          bindE (py_float str2float (dict_get context ''batch_size'' (PFloat 1.0))) (\<lambda>batch.
          bindE (py_float str2float (dict_get context ''tokens'' (PFloat 512.0))) (\<lambda>tokens.
          bindE (py_float str2float (dict_get context ''concurrency'' (PFloat 1.0))) (\<lambda>concurrency.
            (case num_mul (num_mul (Flt (tokens / 512.0)) (py_pow batch 0.5))
                          (py_pow concurrency 0.6) of
               Cplx \<Rightarrow> Inr ComplexEst
             | Flt load \<Rightarrow>
                 Inr (RealEst \<lparr>lat_ms = lat_ms base * (1.0 + 0.25 * load),
                               cost = cost base * (1.0 + 0.20 * load),
                               energy = energy base * (1.0 + 0.35 * load)\<rparr>))))))"

text \<open>
  The safety test \<open>est["lat_ms"] <= slo.latency_p95_ms * 1.05 and est["energy"] <=
  slo.energy_j_max * 1.1\<close>, written inline in \<open>ConstrainedBestScore.decide\<close> and as
  \<open>_safe\<close> in \<open>ConstrainedEpsilonGreedy\<close>. Comparing a complex with a float raises.
\<close>

definition safe_est :: "est \<Rightarrow> SLO \<Rightarrow> bool" where
  "safe_est e slo \<longleftrightarrow>
     lat_ms e \<le> latency_p95_ms slo * 1.05 \<and> energy e \<le> energy_j_max slo * 1.1"

definition is_safe :: "estimate_val \<Rightarrow> SLO \<Rightarrow> exn + bool" where
  "is_safe ev slo =
     (case ev of
        ComplexEst \<Rightarrow> Inl (TypeError ''<= not supported between complex and float'')
      | RealEst e \<Rightarrow> Inr (safe_est e slo))"

definition cands :: "string list" where
  "cands = [''photonic'', ''gpu'', ''cpu'']"

text \<open>
  An estimate used as a dictionary of floats. Both deciders compare every estimate with
  the SLO before any other use, and that comparison raises on a complex one; the
  \<open>ComplexEst\<close> case below is therefore never reached and only closes the case analysis.
\<close>

definition real_est :: "estimate_val \<Rightarrow> exn + est" where
  "real_est ev =
     (case ev of
        ComplexEst \<Rightarrow> Inl (TypeError ''complex estimate'')
      | RealEst e \<Rightarrow> Inr e)"

subsection \<open>ConstrainedBestScore\<close>

text \<open>The \<open>for t in cands\<close> loop that fills \<open>safe\<close> with the pairs \<open>(t, est)\<close>.\<close>

fun collect_safe ::
  "(string \<Rightarrow> real option) \<Rightarrow> SLO \<Rightarrow> (string \<rightharpoonup> pyval) \<Rightarrow> string list
     \<Rightarrow> exn + (string \<times> est) list" where
  "collect_safe str2float slo context [] = Inr []"
| "collect_safe str2float slo context (t # ts) =
     bindE (estimate str2float t context) (\<lambda>ev.
     bindE (is_safe ev slo) (\<lambda>ok.
     bindE (real_est ev) (\<lambda>e.
     bindE (collect_safe str2float slo context ts) (\<lambda>rest.
       Inr (if ok then (t, e) # rest else rest)))))"

text \<open>The fallback \<open>[(t, self.models.estimate(t, context)) for t in cands]\<close>.\<close>

fun estimate_all ::
  "(string \<Rightarrow> real option) \<Rightarrow> (string \<rightharpoonup> pyval) \<Rightarrow> string list
     \<Rightarrow> exn + (string \<times> est) list" where
  "estimate_all str2float context [] = Inr []"
| "estimate_all str2float context (t # ts) =
     bindE (estimate str2float t context) (\<lambda>ev.
     bindE (real_est ev) (\<lambda>e.
     bindE (estimate_all str2float context ts) (\<lambda>rest.
       Inr ((t, e) # rest))))"

text \<open>The comprehension \<open>[(t, est, score(est, slo)) for t, est in safe]\<close>.\<close>

fun score_all :: "SLO \<Rightarrow> (string \<times> est) list \<Rightarrow> exn + (string \<times> est \<times> real) list" where
  "score_all slo [] = Inr []"
| "score_all slo ((t, e) # rest) =
     bindE (score e slo) (\<lambda>s.
     bindE (score_all slo rest) (\<lambda>scored.
       Inr ((t, e, s) # scored)))"

record best_info =
  target :: string
  expected :: est
  score_val :: real

text \<open>The list \<open>safe\<close> that \<open>ConstrainedBestScore.decide\<close> scores, after the fallback.\<close>

definition cbs_safe ::
  "(string \<Rightarrow> real option) \<Rightarrow> SLO \<Rightarrow> (string \<rightharpoonup> pyval) \<Rightarrow> exn + (string \<times> est) list" where
  "cbs_safe str2float slo context =
     bindE (collect_safe str2float slo context cands) (\<lambda>safe.
       if safe = [] then estimate_all str2float context cands else Inr safe)"

definition cbs_decide ::
  "(string \<Rightarrow> real option) \<Rightarrow> SLO \<Rightarrow> (string \<rightharpoonup> pyval) \<Rightarrow> exn + string \<times> best_info" where
  "cbs_decide str2float slo context =
     bindE (cbs_safe str2float slo context) (\<lambda>safe.
     bindE (score_all slo safe) (\<lambda>scored.
     bindE (py_max (\<lambda>(t, e, s). s) scored) (\<lambda>(best_t, best_est, best_score).
       Inr (best_t, \<lparr>target = best_t, expected = best_est, score_val = best_score\<rparr>))))"

subsection \<open>ConstrainedEpsilonGreedy\<close>

text \<open>
  The instance: \<open>eps\<close>, \<open>canary\<close> and the two dictionaries \<open>mu\<close> and \<open>n\<close>
  (\<open>models\<close> is the constant table above).
\<close>

record egreedy =
  eps :: real
  canary :: real
  mu :: "string \<rightharpoonup> real"
  n :: "string \<rightharpoonup> int"

definition eg_init :: "real \<Rightarrow> real \<Rightarrow> egreedy" where
  "eg_init e c =
     \<lparr>eps = e, canary = c,
      mu = map_of (map (\<lambda>t. (t, 0)) cands),
      n = map_of (map (\<lambda>t. (t, 1)) cands)\<rparr>"

text \<open>
  \<open>observe\<close>. \<open>actual\<close> is declared \<open>Dict[str, float]\<close>, so \<open>float(..)\<close> on its values is
  the identity. \<open>self.mu[target] += r\<close> reads the entry first and raises KeyError on a
  missing key before anything is stored; \<open>self.n[target] += 1\<close> likewise, after \<open>mu\<close> has
  been written. The result is the exception raised, if any, and the instance afterwards.
\<close>

definition reward :: "(string \<rightharpoonup> real) \<Rightarrow> real" where
  "reward actual =
     1.0 / max (dict_get actual ''cost'' (1 / 10000)) (1 / 10000)
       - 0.5 * max 0.0 (dict_get actual ''lat_ms'' 0.0)"

definition observe :: "egreedy \<Rightarrow> string \<Rightarrow> (string \<rightharpoonup> real) \<Rightarrow> exn option \<times> egreedy" where
  "observe s tgt actual =
     (let r = reward actual in
      case mu s tgt of
        None \<Rightarrow> (Some (KeyError tgt), s)
      | Some m \<Rightarrow>
          (let s1 = s\<lparr>mu := (mu s)(tgt \<mapsto> m + r)\<rparr> in
           case n s1 tgt of
             None \<Rightarrow> (Some (KeyError tgt), s1)
           | Some k \<Rightarrow> (None, s1\<lparr>n := (n s1)(tgt \<mapsto> k + 1)\<rparr>)))"

text \<open>The comprehension \<open>{t: self.models.estimate(t, context) for t in cands}\<close>.\<close>

fun eg_ests ::
  "(string \<Rightarrow> real option) \<Rightarrow> (string \<rightharpoonup> pyval) \<Rightarrow> string list
     \<Rightarrow> exn + (string \<times> estimate_val) list" where
  "eg_ests str2float context [] = Inr []"
| "eg_ests str2float context (t # ts) =
     bindE (estimate str2float t context) (\<lambda>ev.
     bindE (eg_ests str2float context ts) (\<lambda>rest.
       Inr ((t, ev) # rest)))"

text \<open>A subscript \<open>d[k]\<close> on a dictionary.\<close>

definition subscript :: "(string \<rightharpoonup> 'v) \<Rightarrow> string \<Rightarrow> exn + 'v" where
  "subscript d k = (case d k of None \<Rightarrow> Inl (KeyError k) | Some v \<Rightarrow> Inr v)"

text \<open>The comprehension \<open>[t for t in cands if self._safe(ests[t], slo)]\<close>.\<close>

fun eg_filter ::
  "SLO \<Rightarrow> (string \<rightharpoonup> estimate_val) \<Rightarrow> string list \<Rightarrow> exn + string list" where
  "eg_filter slo ests [] = Inr []"
| "eg_filter slo ests (t # ts) =
     bindE (subscript ests t) (\<lambda>ev.
     bindE (is_safe ev slo) (\<lambda>ok.
     bindE (eg_filter slo ests ts) (\<lambda>rest.
       Inr (if ok then t # rest else rest))))"

text \<open>\<open>x / k\<close> of a float by an int.\<close>

definition py_div :: "real \<Rightarrow> int \<Rightarrow> exn + real" where
  "py_div x k = (if k = 0 then Inl ZeroDivisionError else Inr (x / real_of_int k))"

text \<open>
  The comprehension \<open>{t: score(ests[t], slo) + self.mu[t] / self.n[t] for t in safe}\<close>,
  as its list of items; \<open>safe\<close> has no repeated target, so no item overwrites another.
\<close>

fun eg_vals ::
  "egreedy \<Rightarrow> SLO \<Rightarrow> (string \<rightharpoonup> estimate_val) \<Rightarrow> string list
     \<Rightarrow> exn + (string \<times> real) list" where
  "eg_vals s slo ests [] = Inr []"
| "eg_vals s slo ests (t # ts) =
     bindE (subscript ests t) (\<lambda>ev.
     bindE (real_est ev) (\<lambda>e.
     bindE (score e slo) (\<lambda>sc.
     bindE (subscript (mu s) t) (\<lambda>m.
     bindE (subscript (n s) t) (\<lambda>k.
     bindE (py_div m k) (\<lambda>avg.
     bindE (eg_vals s slo ests ts) (\<lambda>rest.
       Inr ((t, sc + avg) # rest))))))))"

record eg_info =
  eg_target :: string
  eg_expected :: est
  mode :: string
  canary_fraction :: real

text \<open>The list \<open>safe\<close> of \<open>ConstrainedEpsilonGreedy.decide\<close>: the filter, \<open>or cands\<close>.\<close>

definition eg_safe :: "SLO \<Rightarrow> (string \<rightharpoonup> estimate_val) \<Rightarrow> exn + string list" where
  "eg_safe slo ests =
     bindE (eg_filter slo ests cands) (\<lambda>safe. Inr (if safe = [] then cands else safe))"

text \<open>
  \<open>decide\<close>. The two draws are inputs: \<open>u\<close> is the value of \<open>random.random()\<close>, in
  \<open>[0, 1)\<close>, and \<open>random.choice(safe)\<close> returns \<open>safe[j]\<close> for a drawn index
  \<open>j < len(safe)\<close>, here \<open>k mod len(safe)\<close> for a drawn natural number \<open>k\<close>.
\<close>

definition eg_decide ::
  "(string \<Rightarrow> real option) \<Rightarrow> egreedy \<Rightarrow> SLO \<Rightarrow> (string \<rightharpoonup> pyval) \<Rightarrow> real \<Rightarrow> nat
     \<Rightarrow> exn + string \<times> eg_info" where
  "eg_decide str2float s slo context u k =
     bindE (eg_ests str2float context cands) (\<lambda>items.
     let ests = map_of items in
     bindE (eg_safe slo ests) (\<lambda>safe.
     bindE (if u < eps s
            then Inr (safe ! (k mod length safe), ''explore'')
            else bindE (eg_vals s slo ests safe) (\<lambda>vals.
                 bindE (py_max snd vals) (\<lambda>kv. Inr (fst kv, ''exploit'')))) (\<lambda>(choice, md).
     bindE (subscript ests choice) (\<lambda>ev.
     bindE (real_est ev) (\<lambda>e.
       Inr (choice, \<lparr>eg_target = choice, eg_expected = e, mode = md,
                     canary_fraction = canary s\<rparr>))))))"

text \<open>The instances a program can reach: a fresh one, then any number of \<open>observe\<close> calls.\<close>

inductive reachable :: "egreedy \<Rightarrow> bool" where
  fresh: "reachable (eg_init e c)"
| observed: "reachable s \<Longrightarrow> reachable (snd (observe s tgt actual))"

section \<open>intent_control_plane_mvp.py\<close>

record Link =
  src :: string
  dst :: string
  capacity_gbps :: real
  base_latency_ms :: real
  tags :: "(string \<times> string) list"

record Topology =
  nodes :: "string list"
  links :: "Link list"

text \<open>
  The snapshot's dictionaries are association lists in insertion order, the order in which
  \<open>.items()\<close> iterates.
\<close>

record ResourceSnapshot =
  timestamp :: real
  link_utilization :: "((string \<times> string) \<times> real) list"
  link_loss :: "((string \<times> string) \<times> real) list"
  link_latency_ms :: "((string \<times> string) \<times> real) list"
  snapshot_notes :: "(string \<times> pyval) list"

record Intent =
  intent_id :: string
  created_at :: real
  kind :: string
  payload :: "string \<rightharpoonup> pyval"

text \<open>
  \<open>Intent.bandwidth\<close>; the fresh \<open>uuid4\<close> string and the clock reading are arguments.
\<close>

definition bandwidth ::
  "string \<Rightarrow> real \<Rightarrow> string \<Rightarrow> string \<Rightarrow> real \<Rightarrow> real option \<Rightarrow> int \<Rightarrow> Intent" where
  "bandwidth uid now source destination bandwidth_gbps max_latency_ms priority =
     \<lparr>intent_id = uid, created_at = now, kind = ''bandwidth'',
      payload = [''source'' \<mapsto> PStr source,
                 ''destination'' \<mapsto> PStr destination,
                 ''bandwidth_gbps'' \<mapsto> PFloat bandwidth_gbps,
                 ''max_latency_ms'' \<mapsto> (case max_latency_ms of None \<Rightarrow> PNone | Some l \<Rightarrow> PFloat l),
                 ''priority'' \<mapsto> PInt priority]\<rparr>"

record Policy =
  max_link_utilization :: real
  max_packet_loss :: real
  require_verification :: bool

definition default_policy :: Policy where
  "default_policy =
     \<lparr>max_link_utilization = 0.85, max_packet_loss = 0.02, require_verification = True\<rparr>"

record Action =
  action_type :: string
  params :: "(string \<times> pyval) list"

record Plan =
  plan_id :: string
  plan_intent_id :: string
  plan_created_at :: real
  actions :: "Action list"
  expected_impact :: "(string \<times> pyval) list"

record ExecutionResult =
  result_plan_id :: string
  ok :: bool
  applied_actions :: "Action list"
  before :: ResourceSnapshot
  after :: ResourceSnapshot
  message :: string

text \<open>One dictionary appended to \<open>Engine.audit_log\<close>.\<close>

record AuditEntry =
  audit_intent_id :: string
  audit_plan_id :: string
  audit_ok :: bool
  audit_message :: string
  ts :: real

subsection \<open>Planner\<close>

text \<open>
  \<open>Planner.plan\<close>. The fresh plan id and the clock reading are arguments. The payload
  subscripts raise KeyError in the order the source evaluates them; \<open>.get\<close> gives
  \<open>None\<close> for a missing \<open>max_latency_ms\<close>.
\<close>

definition plan ::
  "(string \<Rightarrow> real option) \<Rightarrow> string \<Rightarrow> real \<Rightarrow> Topology \<Rightarrow> ResourceSnapshot \<Rightarrow> Intent \<Rightarrow> Policy
     \<Rightarrow> exn + Plan" where
  "plan str2float uid now topology snapshot intent policy =
     (if kind intent \<noteq> ''bandwidth''
      then Inl (ValueError (''Unsupported intent kind: '' @ kind intent))
      else
        bindE (subscript (payload intent) ''source'') (\<lambda>s.
        bindE (subscript (payload intent) ''destination'') (\<lambda>d.
        bindE (subscript (payload intent) ''bandwidth_gbps'') (\<lambda>b.
        bindE (py_float str2float b) (\<lambda>bw.
        let max_lat = dict_get (payload intent) ''max_latency_ms'' PNone in
        Inr \<lparr>plan_id = uid,
             plan_intent_id = intent_id intent,
             plan_created_at = now,
             actions =
               [\<lparr>action_type = ''allocate_flow'',
                 params = [(''source'', s),
                           (''destination'', d),
                           (''bandwidth_gbps'', PFloat bw),
                           (''max_latency_ms'', max_lat),
                           (''policy_max_util'', PFloat (max_link_utilization policy)),
                           (''policy_max_loss'', PFloat (max_packet_loss policy))]\<rparr>],
             expected_impact =
               [(''goal'', PStr ''satisfy_bandwidth_intent''),
                (''notes'', PStr ''MVP stub planner emits allocate_flow action.'')]\<rparr>)))))"

subsection \<open>Engine\<close>

text \<open>
  The format \<open>{x:.3f}\<close>: the sign, the integer part, a point and three decimals, the value
  rounded to the nearest thousandth with ties to the even neighbour (a float is a rational
  number, and the conversion rounds its exact value).
\<close>

definition round_half_even :: "real \<Rightarrow> int" where
  "round_half_even x =
     (let f = \<lfloor>x\<rfloor>; d = x - of_int f
      in if d < 1 / 2 then f else if 1 / 2 < d then f + 1 else if even f then f else f + 1)"

definition digit :: "nat \<Rightarrow> char" where
  "digit d = ''0123456789'' ! d"

fun digits :: "nat \<Rightarrow> string" where
  "digits k = (if k < 10 then [digit k] else digits (k div 10) @ [digit (k mod 10)])"

definition fmt3 :: "real \<Rightarrow> string" where
  "fmt3 x =
     (let m = nat (round_half_even (\<bar>x\<bar> * 1000))
      in (if x < 0 then ''-'' else []) @ digits (m div 1000) @ ''.''
           @ [digit (m mod 1000 div 100), digit (m mod 100 div 10), digit (m mod 10)])"

text \<open>
  The verification loop over \<open>after.link_loss.items()\<close>: the first loss above the
  threshold, where the loop breaks, or \<open>None\<close> when the loop runs to its end.
\<close>

fun first_violation :: "real \<Rightarrow> ((string \<times> string) \<times> real) list \<Rightarrow> real option" where
  "first_violation limit [] = None"
| "first_violation limit ((_, loss) # rest) =
     (if limit < loss then Some loss else first_violation limit rest)"

text \<open>
  The engine: its topology, its executor, its policy and its audit log. The executor is
  the collaborator \<open>apply(actions)\<close>, which returns nothing or raises. The planner has no
  state. The telemetry collaborator and the two library calls \<open>uuid4\<close> and \<open>time.time\<close>
  are outside the program: what they return during one \<open>submit_intent\<close> is its input
  \<open>Readings\<close>, in the order the call consumes them. The first telemetry read opens the
  call, before anything is planned, applied or audited, and \<open>Readings\<close> starts from the
  snapshot it returned. The second read comes after the apply and before the audit append:
  it returns a snapshot or raises.
\<close>

record Engine =
  topology :: Topology
  executor :: "Action list \<Rightarrow> exn option"
  policy :: Policy
  audit_log :: "AuditEntry list"

record Readings =
  snapshot_before :: ResourceSnapshot
  fresh_plan_id :: string
  plan_clock :: real
  snapshot_after :: "exn + ResourceSnapshot"
  audit_clock :: real

definition verify :: "Policy \<Rightarrow> ResourceSnapshot \<Rightarrow> bool \<times> string" where
  "verify pol snap =
     (if require_verification pol
      then (case first_violation (max_packet_loss pol) (link_loss snap) of
              Some loss \<Rightarrow>
                (False, ''verification_failed: loss '' @ fmt3 loss @ '' > ''
                          @ fmt3 (max_packet_loss pol))
            | None \<Rightarrow> (True, ''applied''))
      else (True, ''applied''))"

text \<open>
  \<open>Engine.submit_intent\<close>: what the call returns or raises, and the engine afterwards.
  Nothing in the method catches an exception, so one raised by the planner, by the
  executor or by the second telemetry read leaves the method at once.
\<close>

definition submit_intent ::
  "(string \<Rightarrow> real option) \<Rightarrow> Engine \<Rightarrow> Readings \<Rightarrow> Intent \<Rightarrow> (exn + ExecutionResult) \<times> Engine" where
  "submit_intent str2float eng rd intent =
     (let before_snap = snapshot_before rd in
      case plan str2float (fresh_plan_id rd) (plan_clock rd) (topology eng) before_snap intent
             (policy eng) of
        Inl e \<Rightarrow> (Inl e, eng)
      | Inr p \<Rightarrow>
          (case executor eng (actions p) of
             Some e \<Rightarrow> (Inl e, eng)
           | None \<Rightarrow>
               (case snapshot_after rd of
                  Inl e \<Rightarrow> (Inl e, eng)
                | Inr after_snap \<Rightarrow>
                    (let (good, msg) = verify (policy eng) after_snap;
                         entry = \<lparr>audit_intent_id = intent_id intent,
                                  audit_plan_id = plan_id p,
                                  audit_ok = good,
                                  audit_message = msg,
                                  ts = audit_clock rd\<rparr>
                     in (Inr \<lparr>result_plan_id = plan_id p,
                              ok = good,
                              applied_actions = actions p,
                              before = before_snap,
                              after = after_snap,
                              message = msg\<rparr>,
                         eng\<lparr>audit_log := audit_log eng @ [entry]\<rparr>)))))"

text \<open>The simulation adapters of the module and the engine of its example.\<close>

definition sim_snapshot :: "real \<Rightarrow> ResourceSnapshot" where
  "sim_snapshot now =
     \<lparr>timestamp = now,
      link_utilization = [((''A'', ''B''), 0.50), ((''B'', ''C''), 0.60), ((''A'', ''C''), 0.90)],
      link_loss = [((''A'', ''B''), 0.005), ((''B'', ''C''), 0.010), ((''A'', ''C''), 0.030)],
      link_latency_ms = [((''A'', ''B''), 8.0), ((''B'', ''C''), 12.0), ((''A'', ''C''), 30.0)],
      snapshot_notes = []\<rparr>"

definition sim_executor :: "Action list \<Rightarrow> exn option" where
  "sim_executor acts = None"

definition example_topology :: Topology where
  "example_topology =
     \<lparr>nodes = [''A'', ''B'', ''C''],
      links = [\<lparr>src = ''A'', dst = ''B'', capacity_gbps = 100, base_latency_ms = 8, tags = []\<rparr>,
               \<lparr>src = ''B'', dst = ''C'', capacity_gbps = 100, base_latency_ms = 12, tags = []\<rparr>,
               \<lparr>src = ''A'', dst = ''C'', capacity_gbps = 50, base_latency_ms = 30, tags = []\<rparr>]\<rparr>"

definition example_engine :: Engine where
  "example_engine =
     \<lparr>topology = example_topology, executor = sim_executor,
      policy = \<lparr>max_link_utilization = 0.85, max_packet_loss = 0.02,
                require_verification = True\<rparr>,
      audit_log = []\<rparr>"

text \<open>
  Inputs for the examples. No example puts a string where \<open>float\<close> is applied, so they
  run with an instance of \<open>str2float\<close> that is never consulted. The SLO is that of
  \<open>_demo()\<close>; the readings and the intent are those of \<open>example()\<close>, with fixed
  identifiers and clock values.
\<close>

definition reject_strings :: "string \<Rightarrow> real option" where
  "reject_strings s = None"

definition failing_executor :: "exn \<Rightarrow> Action list \<Rightarrow> exn option" where
  "failing_executor e acts = Some e"

definition demo_slo :: SLO where
  "demo_slo = \<lparr>latency_p95_ms = 2.0, cost_per_1k = 0.0005, energy_j_max = 6.0\<rparr>"

definition example_readings :: Readings where
  "example_readings =
     \<lparr>snapshot_before = sim_snapshot 1, fresh_plan_id = ''plan-1'', plan_clock = 2,
      snapshot_after = Inr (sim_snapshot 3), audit_clock = 4\<rparr>"

definition example_intent :: Intent where
  "example_intent = bandwidth ''intent-1'' 0 ''A'' ''C'' 50 (Some 25) 5"

section \<open>Properties of the adaptive scheduler's state\<close>

lemma dom_init:
  "dom (mu (eg_init e c)) = set cands" "dom (n (eg_init e c)) = set cands"
  by (auto simp: eg_init_def cands_def split: if_splits)

lemma observe_dom_mu: "dom (mu (snd (observe s t a))) = dom (mu s)"
  by (auto simp: observe_def Let_def split: option.splits if_splits)

lemma observe_dom_n: "dom (n (snd (observe s t a))) = dom (n s)"
  by (auto simp: observe_def Let_def split: option.splits if_splits)

lemma reachable_dom: "reachable s \<Longrightarrow> dom (mu s) = set cands \<and> dom (n s) = set cands"
  by (induction rule: reachable.induct) (simp_all add: dom_init observe_dom_mu observe_dom_n)

lemma observe_keeps_count_positive:
  "n s t = Some k \<Longrightarrow> 1 \<le> k \<Longrightarrow> \<exists>k'. n (snd (observe s t' a)) t = Some k' \<and> 1 \<le> k'"
  by (auto simp: observe_def Let_def split: option.splits if_splits)

lemma reachable_count_positive:
  "reachable s \<Longrightarrow> t \<in> set cands \<Longrightarrow> \<exists>k. n s t = Some k \<and> 1 \<le> k"
proof (induction arbitrary: t rule: reachable.induct)
  case (fresh e c)
  then show ?case by (auto simp: eg_init_def cands_def)
next
  case (observed s tgt actual)
  then obtain k where "n s t = Some k" "1 \<le> k" by blast
  then show ?case by (rule observe_keeps_count_positive)
qed

text \<open>
  Claim C7. On an instance reached by construction and \<open>observe\<close> calls, \<open>observe\<close> on a
  tracked target \<open>t\<close> returns normally; the instance afterwards is the old one with
  \<open>mu[t]\<close> increased by \<open>1 / max(cost, 1e-4) - 0.5 * max(0, lat_ms)\<close> and \<open>n[t]\<close>
  increased by one, where \<open>cost\<close> and \<open>lat_ms\<close> are read from the observed outcome.
  Every other entry of \<open>mu\<close> and \<open>n\<close>, and \<open>eps\<close> and \<open>canary\<close>, are as before.
\<close>

theorem observe_tracked_update:
  assumes "reachable s" and "t \<in> set cands"
  shows "\<exists>m k. mu s t = Some m \<and> n s t = Some k \<and>
           observe s t actual =
             (None,
              s\<lparr>mu := (mu s)(t \<mapsto> m + (1 / max (dict_get actual ''cost'' (1 / 10000)) (1 / 10000)
                                       - 0.5 * max 0 (dict_get actual ''lat_ms'' 0))),
                n := (n s)(t \<mapsto> k + 1)\<rparr>)"
proof -
  from assms reachable_dom have "t \<in> dom (mu s)" "t \<in> dom (n s)" by auto
  then obtain m k where "mu s t = Some m" "n s t = Some k" by auto
  then show ?thesis by (simp add: observe_def reward_def Let_def)
qed

theorem observe_tracked_update_witness:
  "reachable (eg_init (1 / 10) (1 / 20)) \<and> ''gpu'' \<in> set cands \<and>
   observe (eg_init (1 / 10) (1 / 20)) ''gpu'' [''cost'' \<mapsto> 5 / 10000, ''lat_ms'' \<mapsto> 2] =
     (None, \<lparr>eps = 1 / 10, canary = 1 / 20,
             mu = [''photonic'' \<mapsto> 0, ''gpu'' \<mapsto> 1999, ''cpu'' \<mapsto> 0],
             n = [''photonic'' \<mapsto> 1, ''gpu'' \<mapsto> 2, ''cpu'' \<mapsto> 1]\<rparr>)"
proof -
  have r: "reachable (eg_init (1 / 10) (1 / 20))" by (rule reachable.fresh)
  have c: "''gpu'' \<in> set cands" by (simp add: cands_def)
  from observe_tracked_update [OF r c, of "[''cost'' \<mapsto> 5 / 10000, ''lat_ms'' \<mapsto> 2]"]
  show ?thesis using r c
    by (auto simp: eg_init_def cands_def dict_get_def fun_eq_iff)
qed

text \<open>
  Claim C8. On an instance reached by construction and \<open>observe\<close> calls, \<open>observe\<close> with
  a target outside \<open>photonic\<close>, \<open>gpu\<close>, \<open>cpu\<close> raises (a KeyError naming the target) and
  leaves the instance, hence the keys and values of \<open>mu\<close> and \<open>n\<close>, exactly as it was.
\<close>

theorem observe_unknown_target:
  assumes "reachable s" and "t \<notin> set cands"
  shows "observe s t actual = (Some (KeyError t), s)"
proof -
  from assms reachable_dom have "mu s t = None" by blast
  then show ?thesis by (simp add: observe_def)
qed

theorem observe_unknown_target_witness:
  "reachable (eg_init (1 / 10) (1 / 20)) \<and> ''tpu'' \<notin> set cands \<and>
   observe (eg_init (1 / 10) (1 / 20)) ''tpu'' [''cost'' \<mapsto> 5 / 10000] =
     (Some (KeyError ''tpu''), eg_init (1 / 10) (1 / 20))"
proof -
  have r: "reachable (eg_init (1 / 10) (1 / 20))" by (rule reachable.fresh)
  have c: "''tpu'' \<notin> set cands" by (simp add: cands_def)
  from observe_unknown_target [OF r c] show ?thesis using r c by simp
qed

text \<open>
  Claim C10. On every instance reached by construction and \<open>observe\<close> calls, and for every
  tracked target \<open>t\<close>, \<open>n[t]\<close> is present and at least 1, so the division
  \<open>mu[t] / n[t]\<close> of the exploit branch does not raise ZeroDivisionError.
\<close>

theorem count_at_least_one:
  assumes "reachable s" and "t \<in> set cands"
  shows "\<exists>k. n s t = Some k \<and> 1 \<le> k \<and> (\<forall>m. py_div m k = Inr (m / real_of_int k))"
proof -
  from assms obtain k where "n s t = Some k" "1 \<le> k"
    using reachable_count_positive by blast
  then show ?thesis by (auto simp: py_div_def)
qed

theorem count_at_least_one_witness:
  "reachable (snd (observe (eg_init 0 0) ''cpu'' Map.empty)) \<and> ''cpu'' \<in> set cands \<and>
   n (snd (observe (eg_init 0 0) ''cpu'' Map.empty)) ''cpu'' = Some 2 \<and>
   py_div 3 2 = Inr (3 / 2)"
proof -
  have r: "reachable (snd (observe (eg_init 0 0) ''cpu'' Map.empty))"
    by (rule reachable.observed) (rule reachable.fresh)
  have c: "''cpu'' \<in> set cands" by (simp add: cands_def)
  from count_at_least_one [OF r c] show ?thesis using r c
    by (auto simp: observe_def eg_init_def cands_def Let_def py_div_def)
qed

section \<open>Properties of the control loop\<close>

lemma first_violation_None: "first_violation thr xs = None \<longleftrightarrow> (\<forall>x\<in>set xs. snd x \<le> thr)"
  by (induction xs) (auto split: if_splits)

lemma first_violation_Some:
  "first_violation thr xs = Some l \<Longrightarrow>
     \<exists>pre k post. xs = pre @ (k, l) # post \<and> (\<forall>x\<in>set pre. snd x \<le> thr) \<and> thr < l"
proof (induction xs)
  case Nil then show ?case by simp
next
  case (Cons x xs)
  obtain k v where x: "x = (k, v)" by (cases x)
  show ?case
  proof (cases "thr < v")
    case True
    with Cons.prems x have "v = l" by simp
    with True x have "x # xs = [] @ (k, l) # xs \<and> (\<forall>y\<in>set []. snd y \<le> thr) \<and> thr < l" by simp
    then show ?thesis by blast
  next
    case False
    with Cons.prems x have "first_violation thr xs = Some l" by simp
    from Cons.IH [OF this] obtain pre k' post where
      h: "xs = pre @ (k', l) # post" "\<forall>y\<in>set pre. snd y \<le> thr" "thr < l" by blast
    with False x have "x # xs = (x # pre) @ (k', l) # post \<and> (\<forall>y\<in>set (x # pre). snd y \<le> thr) \<and> thr < l"
      by simp
    then show ?thesis by blast
  qed
qed

lemmas engine_eval = submit_intent_def example_engine_def example_readings_def example_intent_def
  sim_snapshot_def plan_def bandwidth_def bindE_def subscript_def py_float_def dict_get_def
  sim_executor_def verify_def fmt3_def round_half_even_def digit_def failing_executor_def reject_strings_def

lemma py_float_int_range:
  "py_float sf (PInt 50) = Inr 50" "py_float sf (PInt (10 ^ 400)) = Inl OverflowError"
  by (simp_all add: py_float_def int_float_limit_def)

lemma plan_bandwidth:
  assumes "kind intent = ''bandwidth''"
    and "payload intent ''source'' = Some s"
    and "payload intent ''destination'' = Some d"
    and "payload intent ''bandwidth_gbps'' = Some b"
    and "py_float sf b = Inr bw"
  shows "plan sf uid now topo snap intent pol =
           Inr \<lparr>plan_id = uid, plan_intent_id = intent_id intent, plan_created_at = now,
                actions =
                  [\<lparr>action_type = ''allocate_flow'',
                    params = [(''source'', s), (''destination'', d),
                              (''bandwidth_gbps'', PFloat bw),
                              (''max_latency_ms'', dict_get (payload intent) ''max_latency_ms'' PNone),
                              (''policy_max_util'', PFloat (max_link_utilization pol)),
                              (''policy_max_loss'', PFloat (max_packet_loss pol))]\<rparr>],
                expected_impact =
                  [(''goal'', PStr ''satisfy_bandwidth_intent''),
                   (''notes'', PStr ''MVP stub planner emits allocate_flow action.'')]\<rparr>"
  using assms by (simp add: plan_def bindE_def subscript_def)

lemma example_plan:
  "plan reject_strings (fresh_plan_id example_readings) (plan_clock example_readings) topo
     (snapshot_before example_readings) example_intent
     \<lparr>max_link_utilization = 0.85, max_packet_loss = 0.02, require_verification = True\<rparr>
   = Inr \<lparr>plan_id = ''plan-1'', plan_intent_id = ''intent-1'', plan_created_at = 2,
          actions =
            [\<lparr>action_type = ''allocate_flow'',
              params = [(''source'', PStr ''A''), (''destination'', PStr ''C''),
                        (''bandwidth_gbps'', PFloat 50), (''max_latency_ms'', PFloat 25),
                        (''policy_max_util'', PFloat 0.85), (''policy_max_loss'', PFloat 0.02)]\<rparr>],
          expected_impact =
            [(''goal'', PStr ''satisfy_bandwidth_intent''),
             (''notes'', PStr ''MVP stub planner emits allocate_flow action.'')]\<rparr>"
  by (simp add: engine_eval)

text \<open>
  Claim C1, as the code has it. \<open>submit_intent\<close> has no handler around
  \<open>self.executor.apply\<close>: when the executor raises, the exception reaches the caller, no
  ExecutionResult is built and the audit log is not extended. The claim's Failed result with
  message \<open>apply_failed\<close> does not exist; the example engine with a failing executor shows it.
\<close>

theorem apply_failure_not_recorded:
  "submit_intent reject_strings
      (example_engine\<lparr>executor := failing_executor (AdapterError ''link down'')\<rparr>)
      example_readings example_intent
   = (Inl (AdapterError ''link down''),
      example_engine\<lparr>executor := failing_executor (AdapterError ''link down'')\<rparr>)
   \<and> audit_log (example_engine\<lparr>executor := failing_executor (AdapterError ''link down'')\<rparr>) = []"
  by (simp add: engine_eval)

text \<open>
  Claim C1, amended: whenever the planner returns a plan and \<open>Executor.apply\<close> raises on
  its actions, \<open>submit_intent\<close> raises that same exception and the engine, its audit log
  included, is unchanged.
\<close>

theorem apply_failure_propagates:
  assumes "plan sf (fresh_plan_id rd) (plan_clock rd) (topology eng) (snapshot_before rd) intent
             (policy eng) = Inr p"
    and "executor eng (actions p) = Some e"
  shows "submit_intent sf eng rd intent = (Inl e, eng)"
  using assms by (simp add: submit_intent_def)

theorem apply_failure_propagates_witness:
  "submit_intent reject_strings
      (example_engine\<lparr>executor := failing_executor (AdapterError ''timeout'')\<rparr>)
      example_readings example_intent
   = (Inl (AdapterError ''timeout''),
      example_engine\<lparr>executor := failing_executor (AdapterError ''timeout'')\<rparr>)"
proof -
  let ?eng = "example_engine\<lparr>executor := failing_executor (AdapterError ''timeout'')\<rparr>"
  have p: "plan reject_strings (fresh_plan_id example_readings) (plan_clock example_readings)
             (topology ?eng) (snapshot_before example_readings) example_intent (policy ?eng)
           = Inr \<lparr>plan_id = ''plan-1'', plan_intent_id = ''intent-1'', plan_created_at = 2,
          actions =
            [\<lparr>action_type = ''allocate_flow'',
              params = [(''source'', PStr ''A''), (''destination'', PStr ''C''),
                        (''bandwidth_gbps'', PFloat 50), (''max_latency_ms'', PFloat 25),
                        (''policy_max_util'', PFloat 0.85), (''policy_max_loss'', PFloat 0.02)]\<rparr>],
          expected_impact =
            [(''goal'', PStr ''satisfy_bandwidth_intent''),
             (''notes'', PStr ''MVP stub planner emits allocate_flow action.'')]\<rparr>"
    using example_plan [of "topology ?eng"] by (simp add: example_engine_def)
  have e: "executor ?eng acts = Some (AdapterError ''timeout'')" for acts
    by (simp add: failing_executor_def)
  from apply_failure_propagates [OF p e] show ?thesis .
qed

text \<open>
  Claim C2, as the code has it. A successful apply is not enough: the second telemetry read
  comes after it and before the audit append, and when that read raises, the exception
  leaves \<open>submit_intent\<close>. The intent of \<open>example()\<close>, built by \<open>Intent.bandwidth\<close>, is
  planned and applied, yet there is no ExecutionResult and no audit entry.
\<close>

theorem after_snapshot_failure_drops_result:
  "kind example_intent = ''bandwidth''
   \<and> payload example_intent ''source'' = Some (PStr ''A'')
   \<and> payload example_intent ''destination'' = Some (PStr ''C'')
   \<and> payload example_intent ''bandwidth_gbps'' = Some (PFloat 50)
   \<and> executor example_engine
        [\<lparr>action_type = ''allocate_flow'',
          params = [(''source'', PStr ''A''), (''destination'', PStr ''C''),
                    (''bandwidth_gbps'', PFloat 50), (''max_latency_ms'', PFloat 25),
                    (''policy_max_util'', PFloat 0.85), (''policy_max_loss'', PFloat 0.02)]\<rparr>]
       = None
   \<and> submit_intent reject_strings example_engine
        (example_readings\<lparr>snapshot_after := Inl (AdapterError ''telemetry unavailable'')\<rparr>)
        example_intent
       = (Inl (AdapterError ''telemetry unavailable''), example_engine)
   \<and> audit_log example_engine = []"
  by (simp add: engine_eval)

text \<open>
  Claim C2, amended: for every intent of kind \<open>bandwidth\<close> whose payload contains
  \<open>source\<close>, \<open>destination\<close> and a \<open>bandwidth_gbps\<close> that \<open>float\<close> converts (a float, or
  an int within the range of a double), whose apply step succeeds and whose after-snapshot
  is obtained, the planner returns a plan with exactly one action, \<open>allocate_flow\<close>, whose
  parameters are the payload's source and destination, the converted bandwidth, the payload's
  \<open>max_latency_ms\<close> (\<open>None\<close> when absent) and the policy's two thresholds; \<open>submit_intent\<close>
  returns one ExecutionResult carrying that action and appends exactly one audit entry, for
  this intent, this plan and this outcome.
\<close>

theorem bandwidth_intent_one_result:
  assumes "kind intent = ''bandwidth''"
    and "payload intent ''source'' = Some s"
    and "payload intent ''destination'' = Some d"
    and "payload intent ''bandwidth_gbps'' = Some b"
    and "py_float sf b = Inr bw"
    and "acts = [\<lparr>action_type = ''allocate_flow'',
                  params = [(''source'', s), (''destination'', d),
                            (''bandwidth_gbps'', PFloat bw),
                            (''max_latency_ms'', dict_get (payload intent) ''max_latency_ms'' PNone),
                            (''policy_max_util'', PFloat (max_link_utilization (policy eng))),
                            (''policy_max_loss'', PFloat (max_packet_loss (policy eng)))]\<rparr>]"
    and "executor eng acts = None"
    and "snapshot_after rd = Inr snap"
  shows "\<exists>p res entry.
           plan sf (fresh_plan_id rd) (plan_clock rd) (topology eng) (snapshot_before rd) intent
             (policy eng) = Inr p
           \<and> actions p = acts
           \<and> submit_intent sf eng rd intent
               = (Inr res, eng\<lparr>audit_log := audit_log eng @ [entry]\<rparr>)
           \<and> applied_actions res = acts
           \<and> result_plan_id res = plan_id p
           \<and> before res = snapshot_before rd
           \<and> after res = snap
           \<and> audit_plan_id entry = plan_id p
           \<and> audit_intent_id entry = intent_id intent
           \<and> audit_ok entry = ok res
           \<and> audit_message entry = message res"
proof -
  let ?p = "\<lparr>plan_id = fresh_plan_id rd, plan_intent_id = intent_id intent,
             plan_created_at = plan_clock rd, actions = acts,
             expected_impact =
               [(''goal'', PStr ''satisfy_bandwidth_intent''),
                (''notes'', PStr ''MVP stub planner emits allocate_flow action.'')]\<rparr>"
  have p: "plan sf (fresh_plan_id rd) (plan_clock rd) (topology eng) (snapshot_before rd) intent
             (policy eng) = Inr ?p"
    using plan_bandwidth [OF assms(1-5)] assms(6) by simp
  obtain good msg where v: "verify (policy eng) snap = (good, msg)"
    by (cases "verify (policy eng) snap")
  let ?res = "\<lparr>result_plan_id = fresh_plan_id rd, ok = good, applied_actions = acts,
               before = snapshot_before rd, after = snap, message = msg\<rparr>"
  let ?entry = "\<lparr>audit_intent_id = intent_id intent, audit_plan_id = fresh_plan_id rd,
                 audit_ok = good, audit_message = msg, ts = audit_clock rd\<rparr>"
  have "submit_intent sf eng rd intent = (Inr ?res, eng\<lparr>audit_log := audit_log eng @ [?entry]\<rparr>)"
    using assms(7,8) by (simp add: submit_intent_def p v)
  with p have
    "plan sf (fresh_plan_id rd) (plan_clock rd) (topology eng) (snapshot_before rd) intent
             (policy eng) = Inr ?p
           \<and> actions ?p = acts
           \<and> submit_intent sf eng rd intent
               = (Inr ?res, eng\<lparr>audit_log := audit_log eng @ [?entry]\<rparr>)
           \<and> applied_actions ?res = acts
           \<and> result_plan_id ?res = plan_id ?p
           \<and> before ?res = snapshot_before rd
           \<and> after ?res = snap
           \<and> audit_plan_id ?entry = plan_id ?p
           \<and> audit_intent_id ?entry = intent_id intent
           \<and> audit_ok ?entry = ok ?res
           \<and> audit_message ?entry = message ?res"
    by simp
  then show ?thesis by blast
qed

theorem bandwidth_intent_one_result_witness:
  "\<exists>res entry.
     submit_intent reject_strings example_engine example_readings example_intent
       = (Inr res, example_engine\<lparr>audit_log := [entry]\<rparr>)
     \<and> applied_actions res =
         [\<lparr>action_type = ''allocate_flow'',
           params = [(''source'', PStr ''A''), (''destination'', PStr ''C''),
                     (''bandwidth_gbps'', PFloat 50), (''max_latency_ms'', PFloat 25),
                     (''policy_max_util'', PFloat 0.85), (''policy_max_loss'', PFloat 0.02)]\<rparr>]"
proof -
  have 1: "kind example_intent = ''bandwidth''" by (simp add: example_intent_def bandwidth_def)
  have 2: "payload example_intent ''source'' = Some (PStr ''A'')"
    by (simp add: example_intent_def bandwidth_def)
  have 3: "payload example_intent ''destination'' = Some (PStr ''C'')"
    by (simp add: example_intent_def bandwidth_def)
  have 4: "payload example_intent ''bandwidth_gbps'' = Some (PFloat 50)"
    by (simp add: example_intent_def bandwidth_def)
  have 5: "py_float reject_strings (PFloat 50) = Inr 50" by (simp add: py_float_def)
  have 7: "executor example_engine acts = None" for acts
    by (simp add: example_engine_def sim_executor_def)
  have 8: "snapshot_after example_readings = Inr (sim_snapshot 3)"
    by (simp add: example_readings_def)
  from bandwidth_intent_one_result [OF 1 2 3 4 5 refl 7 8]
  show ?thesis
    by (auto simp: example_engine_def example_intent_def bandwidth_def dict_get_def)
qed

text \<open>
  Claim C3. When the plan is produced and applied and the after-snapshot is read: if the
  policy requires verification and some loss of the after-snapshot exceeds
  \<open>max_packet_loss\<close>, the result has \<open>ok = False\<close> and its message is \<open>verification_failed: loss L > T\<close> with \<open>L\<close> the first
  loss, in the snapshot's iteration order, that exceeds the threshold \<open>T\<close>, both printed with
  three decimals; if no loss exceeds the threshold, the result has \<open>ok = True\<close> and the
  message \<open>applied\<close>.
\<close>

theorem verification_reports_first_loss:
  assumes "plan sf (fresh_plan_id rd) (plan_clock rd) (topology eng) (snapshot_before rd) intent
             (policy eng) = Inr p"
    and "executor eng (actions p) = None"
    and "snapshot_after rd = Inr snap"
  shows "(require_verification (policy eng)
            \<and> (\<exists>x\<in>set (link_loss snap). max_packet_loss (policy eng) < snd x)
          \<longrightarrow> (\<exists>res eng' pre k loss post.
                 submit_intent sf eng rd intent = (Inr res, eng')
                 \<and> \<not> ok res
                 \<and> link_loss snap = pre @ (k, loss) # post
                 \<and> (\<forall>x\<in>set pre. snd x \<le> max_packet_loss (policy eng))
                 \<and> max_packet_loss (policy eng) < loss
                 \<and> message res = ''verification_failed: loss '' @ fmt3 loss @ '' > ''
                                    @ fmt3 (max_packet_loss (policy eng))))
       \<and> ((\<forall>x\<in>set (link_loss snap). snd x \<le> max_packet_loss (policy eng))
          \<longrightarrow> (\<exists>res eng'.
                 submit_intent sf eng rd intent = (Inr res, eng')
                 \<and> ok res \<and> message res = ''applied''))"
proof (intro conjI impI)
  assume a: "require_verification (policy eng)
     \<and> (\<exists>x\<in>set (link_loss snap). max_packet_loss (policy eng) < snd x)"
  then have "first_violation (max_packet_loss (policy eng)) (link_loss snap) \<noteq> None"
    using linorder_not_le by (fastforce simp: first_violation_None)
  then obtain loss where
    fv: "first_violation (max_packet_loss (policy eng)) (link_loss snap) = Some loss"
    by blast
  from first_violation_Some [OF fv] obtain pre k post where
    sp: "link_loss snap = pre @ (k, loss) # post"
        "\<forall>x\<in>set pre. snd x \<le> max_packet_loss (policy eng)"
        "max_packet_loss (policy eng) < loss"
    by blast
  have v: "verify (policy eng) snap
             = (False, ''verification_failed: loss '' @ fmt3 loss @ '' > ''
                          @ fmt3 (max_packet_loss (policy eng)))"
    using a fv by (simp add: verify_def)
  let ?msg = "''verification_failed: loss '' @ fmt3 loss @ '' > ''
                 @ fmt3 (max_packet_loss (policy eng))"
  let ?res = "\<lparr>result_plan_id = plan_id p, ok = False, applied_actions = actions p,
               before = snapshot_before rd, after = snap, message = ?msg\<rparr>"
  let ?eng = "eng\<lparr>audit_log := audit_log eng @
                 [\<lparr>audit_intent_id = intent_id intent, audit_plan_id = plan_id p,
                   audit_ok = False, audit_message = ?msg, ts = audit_clock rd\<rparr>]\<rparr>"
  have "submit_intent sf eng rd intent = (Inr ?res, ?eng)"
    using assms v by (simp add: submit_intent_def)
  with sp have "submit_intent sf eng rd intent = (Inr ?res, ?eng)
                 \<and> \<not> ok ?res
                 \<and> link_loss snap = pre @ (k, loss) # post
                 \<and> (\<forall>x\<in>set pre. snd x \<le> max_packet_loss (policy eng))
                 \<and> max_packet_loss (policy eng) < loss
                 \<and> message ?res = ?msg"
    by simp
  then show "\<exists>res eng' pre k loss post.
                 submit_intent sf eng rd intent = (Inr res, eng')
                 \<and> \<not> ok res
                 \<and> link_loss snap = pre @ (k, loss) # post
                 \<and> (\<forall>x\<in>set pre. snd x \<le> max_packet_loss (policy eng))
                 \<and> max_packet_loss (policy eng) < loss
                 \<and> message res = ''verification_failed: loss '' @ fmt3 loss @ '' > ''
                                    @ fmt3 (max_packet_loss (policy eng))"
    by blast
next
  assume "\<forall>x\<in>set (link_loss snap). snd x \<le> max_packet_loss (policy eng)"
  then have "first_violation (max_packet_loss (policy eng)) (link_loss snap) = None"
    by (simp add: first_violation_None)
  then have v: "verify (policy eng) snap = (True, ''applied'')"
    by (simp add: verify_def)
  show "\<exists>res eng'. submit_intent sf eng rd intent = (Inr res, eng') \<and> ok res \<and> message res = ''applied''"
    using assms v by (simp add: submit_intent_def Let_def)
qed

theorem verification_reports_first_loss_witness:
  "(case fst (submit_intent reject_strings example_engine example_readings example_intent) of
      Inl e \<Rightarrow> False
    | Inr res \<Rightarrow> \<not> ok res \<and> message res = ''verification_failed: loss 0.030 > 0.020'')
   \<and> (case fst (submit_intent reject_strings example_engine
                  (example_readings\<lparr>snapshot_after :=
                     Inr ((sim_snapshot 3)\<lparr>link_loss :=
                            [((''A'', ''B''), 0.005), ((''B'', ''C''), 0.02)]\<rparr>)\<rparr>)
                  example_intent) of
      Inl e \<Rightarrow> False
    | Inr res \<Rightarrow> ok res \<and> message res = ''applied'')"
proof -
  let ?snap = "(sim_snapshot 3)\<lparr>link_loss := [((''A'', ''B''), 0.005), ((''B'', ''C''), 0.02)]\<rparr>"
  let ?rd = "example_readings\<lparr>snapshot_after := Inr ?snap\<rparr>"
  have s1: "snapshot_after example_readings = Inr (sim_snapshot 3)"
    by (simp add: example_readings_def)
  have s2: "snapshot_after ?rd = Inr ?snap" by simp
  have p1: "plan reject_strings (fresh_plan_id example_readings) (plan_clock example_readings)
              (topology example_engine) (snapshot_before example_readings) example_intent
              (policy example_engine) = Inr
             \<lparr>plan_id = ''plan-1'', plan_intent_id = ''intent-1'', plan_created_at = 2,
          actions =
            [\<lparr>action_type = ''allocate_flow'',
              params = [(''source'', PStr ''A''), (''destination'', PStr ''C''),
                        (''bandwidth_gbps'', PFloat 50), (''max_latency_ms'', PFloat 25),
                        (''policy_max_util'', PFloat 0.85), (''policy_max_loss'', PFloat 0.02)]\<rparr>],
          expected_impact =
            [(''goal'', PStr ''satisfy_bandwidth_intent''),
             (''notes'', PStr ''MVP stub planner emits allocate_flow action.'')]\<rparr>"
    using example_plan [of "topology example_engine"] by (simp add: example_engine_def)
  have p2: "plan reject_strings (fresh_plan_id ?rd) (plan_clock ?rd)
              (topology example_engine) (snapshot_before ?rd) example_intent
              (policy example_engine) = Inr
             \<lparr>plan_id = ''plan-1'', plan_intent_id = ''intent-1'', plan_created_at = 2,
          actions =
            [\<lparr>action_type = ''allocate_flow'',
              params = [(''source'', PStr ''A''), (''destination'', PStr ''C''),
                        (''bandwidth_gbps'', PFloat 50), (''max_latency_ms'', PFloat 25),
                        (''policy_max_util'', PFloat 0.85), (''policy_max_loss'', PFloat 0.02)]\<rparr>],
          expected_impact =
            [(''goal'', PStr ''satisfy_bandwidth_intent''),
             (''notes'', PStr ''MVP stub planner emits allocate_flow action.'')]\<rparr>"
    using p1 by simp
  have e: "executor example_engine acts = None" for acts
    by (simp add: example_engine_def sim_executor_def)
  from verification_reports_first_loss [OF p1 e s1] verification_reports_first_loss [OF p2 e s2]
  show ?thesis
    by (simp add: engine_eval)
qed

text \<open>
  Claim C5. For an intent whose kind is not \<open>bandwidth\<close> the planner raises a ValueError
  whose text ends with the offending kind; \<open>submit_intent\<close> raises it too, returns no
  result and leaves the engine, its audit log included, unchanged.
\<close>

theorem unsupported_kind_aborts:
  assumes "kind intent \<noteq> ''bandwidth''"
  shows "plan sf uid now topo snap intent pol
           = Inl (ValueError (''Unsupported intent kind: '' @ kind intent))
         \<and> submit_intent sf eng rd intent
           = (Inl (ValueError (''Unsupported intent kind: '' @ kind intent)), eng)"
  using assms by (simp add: plan_def submit_intent_def)

theorem unsupported_kind_aborts_witness:
  "kind (example_intent\<lparr>kind := ''latency''\<rparr>) \<noteq> ''bandwidth'' \<and>
   submit_intent reject_strings example_engine example_readings
       (example_intent\<lparr>kind := ''latency''\<rparr>)
     = (Inl (ValueError ''Unsupported intent kind: latency''), example_engine) \<and>
   audit_log example_engine = []"
proof -
  have k: "kind (example_intent\<lparr>kind := ''latency''\<rparr>) \<noteq> ''bandwidth''" by simp
  from unsupported_kind_aborts [OF k, of reject_strings _ _ _ _ _ example_engine example_readings]
  show ?thesis using k by (simp add: example_engine_def)
qed

section \<open>Properties of the deciders\<close>

lemma max_from_first_max:
  "\<exists>pre m post. b # xs = pre @ m # post \<and> max_from key b xs = m
      \<and> (\<forall>y\<in>set pre. key y < key m) \<and> (\<forall>y\<in>set post. key y \<le> key m)"
proof (induction xs arbitrary: b)
  case Nil
  have "[b] = [] @ b # [] \<and> max_from key b [] = b
      \<and> (\<forall>y\<in>set []. key y < key b) \<and> (\<forall>y\<in>set []. key y \<le> key b)" by simp
  then show ?case by blast
next
  case (Cons x xs)
  let ?b = "if key b < key x then x else b"
  from Cons.IH [of ?b] obtain pre m post where
    h: "?b # xs = pre @ m # post" "max_from key ?b xs = m"
       "\<forall>y\<in>set pre. key y < key m" "\<forall>y\<in>set post. key y \<le> key m" by blast
  show ?case
  proof (cases pre)
    case Nil
    with h have m: "m = ?b" "post = xs" by simp_all
    show ?thesis
    proof (cases "key b < key x")
      case True
      with m h have "b # x # xs = [b] @ m # post \<and> max_from key b (x # xs) = m
        \<and> (\<forall>y\<in>set [b]. key y < key m) \<and> (\<forall>y\<in>set post. key y \<le> key m)" by simp
      then show ?thesis by blast
    next
      case False
      with m h have "b # x # xs = [] @ m # (x # xs) \<and> max_from key b (x # xs) = m
        \<and> (\<forall>y\<in>set []. key y < key m) \<and> (\<forall>y\<in>set (x # xs). key y \<le> key m)" by auto
      then show ?thesis by blast
    qed
  next
    case (Cons p ps)
    with h have p: "p = ?b" "xs = ps @ m # post" by simp_all
    from h Cons have lt: "key p < key m" "\<forall>y\<in>set ps. key y < key m" by simp_all
    from p lt have "key b < key m" "key x < key m" by (auto split: if_splits)
    with p lt h have "b # x # xs = (b # x # ps) @ m # post \<and> max_from key b (x # xs) = m
        \<and> (\<forall>y\<in>set (b # x # ps). key y < key m) \<and> (\<forall>y\<in>set post. key y \<le> key m)" by simp
    then show ?thesis by blast
  qed
qed

lemma py_max_first_max:
  assumes "xs \<noteq> []"
  shows "\<exists>pre m post. xs = pre @ m # post \<and> py_max key xs = Inr m
      \<and> (\<forall>y\<in>set pre. key y < key m) \<and> (\<forall>y\<in>set post. key y \<le> key m)"
proof -
  from assms obtain b rest where xs: "xs = b # rest" by (cases xs) auto
  from max_from_first_max [of b rest key] xs show ?thesis
    by (simp add: py_max_def) 
qed

lemma score_defined:
  assumes "0 < lat_ms e" "0 < cost e" "0 < energy e"
  shows "\<exists>sc. score e slo = Inr sc \<and> 0 < sc"
proof -
  let ?a = "max (latency_p95_ms slo) (1 / 1000000)"
  let ?b = "max (cost_per_1k slo) (1 / 1000000000)"
  let ?c = "max (energy_j_max slo) (1 / 1000000000)"
  have "0 < ?a" "0 < ?b" "0 < ?c" by simp_all
  with assms have "0 < lat_ms e / ?a" "0 < cost e / ?b" "0 < energy e / ?c" by simp_all
  then have "0 < 0.55 * (lat_ms e / ?a) + 0.30 * (cost e / ?b) + 0.15 * (energy e / ?c)"
    by (simp add: add_pos_pos)
  then show ?thesis by (simp add: score_def Let_def)
qed

lemma estimate_real:
  assumes "py_float sf (dict_get ctx ''batch_size'' (PFloat 1.0)) = Inr b" "0 \<le> b"
    and "py_float sf (dict_get ctx ''tokens'' (PFloat 512.0)) = Inr tk" "0 \<le> tk"
    and "py_float sf (dict_get ctx ''concurrency'' (PFloat 1.0)) = Inr c" "0 \<le> c"
    and "t \<in> set cands"
  shows "\<exists>e. estimate sf t ctx = Inr (RealEst e) \<and> 0 < lat_ms e \<and> 0 < cost e \<and> 0 < energy e"
proof -
  let ?load = "tk / 512.0 * b powr 0.5 * c powr 0.6"
  have l: "0 \<le> ?load" using assms(4) by simp
  from assms(7) obtain base where base: "mean t = Some base" "0 < lat_ms base" "0 < cost base" "0 < energy base"
    by (auto simp: cands_def mean_def)
  have "estimate sf t ctx = Inr (RealEst \<lparr>lat_ms = lat_ms base * (1.0 + 0.25 * ?load),
                               cost = cost base * (1.0 + 0.20 * ?load),
                               energy = energy base * (1.0 + 0.35 * ?load)\<rparr>)"
    using assms(1-6) base(1) by (simp add: estimate_def bindE_def py_pow_def num_mul_def)
  moreover have "0 < 1.0 + 0.25 * ?load" "0 < 1.0 + 0.20 * ?load" "0 < 1.0 + 0.35 * ?load"
    using l by (simp_all add: add_pos_nonneg)
  ultimately show ?thesis using base(2-4) by simp
qed

lemma estimates_exist:
  assumes "py_float sf (dict_get ctx ''batch_size'' (PFloat 1.0)) = Inr b" "0 \<le> b"
    and "py_float sf (dict_get ctx ''tokens'' (PFloat 512.0)) = Inr tk" "0 \<le> tk"
    and "py_float sf (dict_get ctx ''concurrency'' (PFloat 1.0)) = Inr c" "0 \<le> c"
  shows "\<exists>E. \<forall>t\<in>set cands. estimate sf t ctx = Inr (RealEst (E t))
                 \<and> 0 < lat_ms (E t) \<and> 0 < cost (E t) \<and> 0 < energy (E t)"
proof -
  have "\<forall>t\<in>set cands. \<exists>e. estimate sf t ctx = Inr (RealEst e)
                 \<and> 0 < lat_ms e \<and> 0 < cost e \<and> 0 < energy e"
    using estimate_real [OF assms] by blast
  then show ?thesis by (rule bchoice)
qed

lemma collect_safe_eq:
  "\<forall>c\<in>set cs. estimate sf c ctx = Inr (RealEst (E c)) \<Longrightarrow>
   collect_safe sf slo ctx cs
     = Inr (map (\<lambda>c. (c, E c)) (filter (\<lambda>c. safe_est (E c) slo) cs))"
  by (induction cs) (simp_all add: bindE_def is_safe_def real_est_def)

lemma estimate_all_eq:
  "\<forall>c\<in>set cs. estimate sf c ctx = Inr (RealEst (E c)) \<Longrightarrow>
   estimate_all sf ctx cs = Inr (map (\<lambda>c. (c, E c)) cs)"
  by (induction cs) (simp_all add: bindE_def real_est_def)

lemma cbs_safe_eq:
  assumes "\<forall>c\<in>set cands. estimate sf c ctx = Inr (RealEst (E c))"
  shows "cbs_safe sf slo ctx
     = Inr (map (\<lambda>c. (c, E c))
             (if \<exists>c\<in>set cands. safe_est (E c) slo
              then filter (\<lambda>c. safe_est (E c) slo) cands else cands))"
  using collect_safe_eq [OF assms, of slo] estimate_all_eq [OF assms]
  by (auto simp: cbs_safe_def bindE_def filter_empty_conv)

lemma estimate_all_length:
  "estimate_all sf ctx cs = Inr xs \<Longrightarrow> length xs = length cs"
  by (induction cs arbitrary: xs) (auto simp: bindE_def split: sum.splits)

lemma cbs_safe_nonempty: "cbs_safe sf slo ctx = Inr safe \<Longrightarrow> safe \<noteq> []"
  by (auto simp: cbs_safe_def bindE_def cands_def split: sum.splits if_splits
           dest: estimate_all_length)

lemma score_all_shape:
  "score_all slo xs = Inr scored \<Longrightarrow>
   map (\<lambda>(t, e, s). (t, e)) scored = xs \<and> (\<forall>(t, e, s)\<in>set scored. score e slo = Inr s)"
  by (induction slo xs arbitrary: scored rule: score_all.induct)
     (auto simp: bindE_def split: sum.splits)

lemma score_all_defined:
  "\<forall>x\<in>set xs. \<exists>sc. score (snd x) slo = Inr sc \<Longrightarrow> \<exists>scored. score_all slo xs = Inr scored"
  by (induction slo xs rule: score_all.induct) (auto simp: bindE_def)

lemma cbs_decide_first_max:
  assumes "cbs_safe sf slo ctx = Inr safe" and "score_all slo safe = Inr scored"
  shows "\<exists>pre t e s post.
           scored = pre @ (t, e, s) # post
           \<and> cbs_decide sf slo ctx = Inr (t, \<lparr>target = t, expected = e, score_val = s\<rparr>)
           \<and> (\<forall>y\<in>set pre. snd (snd y) < s)
           \<and> (\<forall>y\<in>set post. snd (snd y) \<le> s)"
proof -
  from score_all_shape [OF assms(2)] cbs_safe_nonempty [OF assms(1)] have "scored \<noteq> []" by auto
  from py_max_first_max [OF this, of "\<lambda>(t, e, s). s"] obtain pre m post where
    h: "scored = pre @ m # post" "py_max (\<lambda>(t, e, s). s) scored = Inr m"
       "\<forall>y\<in>set pre. (\<lambda>(t, e, s). s) y < (\<lambda>(t, e, s). s) m"
       "\<forall>y\<in>set post. (\<lambda>(t, e, s). s) y \<le> (\<lambda>(t, e, s). s) m"
    by blast
  obtain t e s where m: "m = (t, e, s)" by (cases m)
  have "cbs_decide sf slo ctx = Inr (t, \<lparr>target = t, expected = e, score_val = s\<rparr>)"
    using assms h(2) m by (simp add: cbs_decide_def bindE_def)
  moreover have "\<forall>y\<in>set pre. snd (snd y) < s" using h(3) m by (auto simp: case_prod_beta)
  moreover have "\<forall>y\<in>set post. snd (snd y) \<le> s" using h(4) m by (auto simp: case_prod_beta)
  ultimately show ?thesis using h(1) m by blast
qed

lemma in_filterD: "x \<in> set (filter P xs) \<Longrightarrow> P x"
  by simp

lemmas sched_eval = cbs_decide_def cbs_safe_def bindE_def estimate_def mean_def cands_def
  py_float_def dict_get_def py_pow_def num_mul_def is_safe_def safe_est_def real_est_def
  score_def py_max_def demo_slo_def reject_strings_def


text \<open>
  Claim C4, as the code has it. \<open>decide\<close> can fail: with a negative \<open>batch_size\<close> the
  power \<open>batch ** 0.5\<close> is complex, every estimate is complex, and the first safety
  comparison raises TypeError. (It fails in other ways that this model does not hold: on a
  context value that \<open>float\<close> rejects, and on an SLO with infinite bounds, where every
  penalty is zero and \<open>1.0 / 0.0\<close> raises.)
\<close>

theorem cbs_decide_negative_batch:
  "cbs_decide reject_strings demo_slo [''batch_size'' \<mapsto> PFloat (- 1)]
     = Inl (TypeError ''<= not supported between complex and float'')"
  by (simp add: sched_eval)


text \<open>
  Claim C4, amended: for every SLO with finite bounds and every context whose
  \<open>batch_size\<close>, \<open>tokens\<close> and \<open>concurrency\<close> (the defaults where absent) are converted
  by \<open>float\<close> to non-negative numbers, \<open>ConstrainedBestScore.decide\<close> obtains an estimate \<open>E c\<close> for each candidate, keeps the
  candidates with \<open>lat_ms \<le> 1.05 * latency_p95_ms\<close> and \<open>energy \<le> 1.1 * energy_j_max\<close>,
  takes all three when none is kept, and returns one of \<open>photonic\<close>, \<open>gpu\<close>, \<open>cpu\<close> with
  its estimate; the returned target is a safe one whenever some candidate is safe.
\<close>

theorem cbs_decide_returns_target:
  assumes "py_float sf (dict_get ctx ''batch_size'' (PFloat 1.0)) = Inr b" and "0 \<le> b"
    and "py_float sf (dict_get ctx ''tokens'' (PFloat 512.0)) = Inr tk" and "0 \<le> tk"
    and "py_float sf (dict_get ctx ''concurrency'' (PFloat 1.0)) = Inr c" and "0 \<le> c"
  shows "\<exists>E t info.
           (\<forall>c\<in>set cands. estimate sf c ctx = Inr (RealEst (E c)))
         \<and> cbs_safe sf slo ctx
             = Inr (map (\<lambda>c. (c, E c))
                     (if \<exists>c\<in>set cands. lat_ms (E c) \<le> latency_p95_ms slo * 1.05
                                         \<and> energy (E c) \<le> energy_j_max slo * 1.1
                      then filter (\<lambda>c. lat_ms (E c) \<le> latency_p95_ms slo * 1.05
                                         \<and> energy (E c) \<le> energy_j_max slo * 1.1) cands
                      else cands))
         \<and> cbs_decide sf slo ctx = Inr (t, info)
         \<and> target info = t \<and> expected info = E t
         \<and> t \<in> {''photonic'', ''gpu'', ''cpu''}
         \<and> ((\<exists>c\<in>set cands. lat_ms (E c) \<le> latency_p95_ms slo * 1.05
                              \<and> energy (E c) \<le> energy_j_max slo * 1.1)
              \<longrightarrow> lat_ms (E t) \<le> latency_p95_ms slo * 1.05
                  \<and> energy (E t) \<le> energy_j_max slo * 1.1)"
proof -
  from estimates_exist [OF assms] obtain E where
    E: "\<forall>t\<in>set cands. estimate sf t ctx = Inr (RealEst (E t))
                 \<and> 0 < lat_ms (E t) \<and> 0 < cost (E t) \<and> 0 < energy (E t)" by blast
  then have est: "\<forall>c\<in>set cands. estimate sf c ctx = Inr (RealEst (E c))" by blast
  let ?P = "\<lambda>c. lat_ms (E c) \<le> latency_p95_ms slo * 1.05
                \<and> energy (E c) \<le> energy_j_max slo * 1.1"
  let ?safe = "if \<exists>c\<in>set cands. ?P c then filter ?P cands else cands"
  have safe: "cbs_safe sf slo ctx = Inr (map (\<lambda>c. (c, E c)) ?safe)"
    using cbs_safe_eq [OF est, of slo] unfolding safe_est_def .
  have sub: "set ?safe \<subseteq> set cands"
    by (cases "\<exists>c\<in>set cands. ?P c") simp_all
  have "\<forall>x\<in>set (map (\<lambda>c. (c, E c)) ?safe). \<exists>sc. score (snd x) slo = Inr sc"
  proof
    fix x assume "x \<in> set (map (\<lambda>c. (c, E c)) ?safe)"
    then obtain c where c: "c \<in> set ?safe" "x = (c, E c)" by (auto simp del: set_filter)
    with sub have "c \<in> set cands" by blast
    with E have "0 < lat_ms (E c)" "0 < cost (E c)" "0 < energy (E c)" by blast+
    from score_defined [OF this] obtain sc where "score (E c) slo = Inr sc" by blast
    with c(2) show "\<exists>sc. score (snd x) slo = Inr sc" by simp
  qed
  from score_all_defined [OF this] obtain scored where
    scored: "score_all slo (map (\<lambda>c. (c, E c)) ?safe) = Inr scored" by blast
  from cbs_decide_first_max [OF safe scored] obtain pre t e s post where
    d: "scored = pre @ (t, e, s) # post"
       "cbs_decide sf slo ctx = Inr (t, \<lparr>target = t, expected = e, score_val = s\<rparr>)" by blast
  from score_all_shape [OF scored]
  have "map (\<lambda>(t, e, s). (t, e)) scored = map (\<lambda>c. (c, E c)) ?safe" by (rule conjunct1)
  then have "set (map (\<lambda>(t, e, s). (t, e)) scored) = set (map (\<lambda>c. (c, E c)) ?safe)" by (rule arg_cong)
  moreover have "(t, e) \<in> set (map (\<lambda>(t, e, s). (t, e)) scored)"
    unfolding d(1) by simp
  ultimately have "(t, e) \<in> set (map (\<lambda>c. (c, E c)) ?safe)" by (rule subst)
  then obtain c' where "c' \<in> set ?safe" "(t, e) = (c', E c')" unfolding set_map by (rule imageE) 
  then have t: "t \<in> set ?safe" "e = E t" by simp_all
  from sub t(1) have "t \<in> set cands" by (rule subsetD)
  then have tc: "t \<in> {''photonic'', ''gpu'', ''cpu''}" by (simp add: cands_def)
  have imp: "(\<exists>c\<in>set cands. ?P c) \<longrightarrow> ?P t"
  proof
    assume ex: "\<exists>c\<in>set cands. ?P c"
    have eq: "?safe = filter ?P cands" by (rule if_P) (rule ex)
    from t(1) have "t \<in> set (filter ?P cands)" by (simp only: eq)
    then show "?P t" by (rule in_filterD)
  qed
  let ?info = "\<lparr>target = t, expected = e, score_val = s\<rparr>"
  have i1: "target ?info = t" and i2: "expected ?info = E t" using t(2) by simp_all
  show ?thesis
    apply (rule exI [of _ E])
    apply (rule exI [of _ t])
    apply (rule exI [of _ ?info])
    apply (intro conjI)
          apply (rule est)
         apply (rule safe)
        apply (rule d(2))
       apply (rule i1)
      apply (rule i2)
     apply (rule tc)
    apply (rule imp)
    done
qed

theorem cbs_decide_returns_target_witness:
  "cbs_decide reject_strings demo_slo Map.empty
     = Inr (''photonic'',
            \<lparr>target = ''photonic'',
             expected = \<lparr>lat_ms = 0.5, cost = 0.00024, energy = 1.35\<rparr>,
             score_val = 4000 / 1261\<rparr>)"
proof -
  have b: "py_float reject_strings (dict_get Map.empty ''batch_size'' (PFloat 1.0)) = Inr 1"
    and t: "py_float reject_strings (dict_get Map.empty ''tokens'' (PFloat 512.0)) = Inr 512"
    and c: "py_float reject_strings (dict_get Map.empty ''concurrency'' (PFloat 1.0)) = Inr 1"
    by (simp_all add: py_float_def dict_get_def)
  have z: "(0::real) \<le> 1" "(0::real) \<le> 512" by simp_all
  from cbs_decide_returns_target [OF b z(1) t z(2) c z(1), of demo_slo]
  obtain tgt info where
    r: "cbs_decide reject_strings demo_slo Map.empty = Inr (tgt, info)" "target info = tgt"
    by (elim exE conjE)
  have ev: "cbs_decide reject_strings demo_slo Map.empty
     = Inr (''photonic'',
            \<lparr>target = ''photonic'',
             expected = \<lparr>lat_ms = 0.5, cost = 0.00024, energy = 1.35\<rparr>,
             score_val = 4000 / 1261\<rparr>)"
    by (simp add: sched_eval)
  from r ev show ?thesis by simp
qed

lemma score_unfold:
  "score e slo =
     (if 0.55 * (lat_ms e / max (latency_p95_ms slo) (1 / 1000000))
           + 0.30 * (cost e / max (cost_per_1k slo) (1 / 1000000000))
           + 0.15 * (energy e / max (energy_j_max slo) (1 / 1000000000)) = 0
      then Inl ZeroDivisionError
      else Inr (1 / (0.55 * (lat_ms e / max (latency_p95_ms slo) (1 / 1000000))
                      + 0.30 * (cost e / max (cost_per_1k slo) (1 / 1000000000))
                      + 0.15 * (energy e / max (energy_j_max slo) (1 / 1000000000)))))"
  unfolding score_def Let_def by (rule refl)

lemma score_unfloored:
  assumes "1 / 1000000 \<le> latency_p95_ms slo" "1 / 1000000000 \<le> cost_per_1k slo"
        "1 / 1000000000 \<le> energy_j_max slo"
        "0.55 * (lat_ms e / latency_p95_ms slo) + 0.30 * (cost e / cost_per_1k slo)
             + 0.15 * (energy e / energy_j_max slo) \<noteq> 0"
  shows "score e slo
            = Inr (1 / (0.55 * (lat_ms e / latency_p95_ms slo)
                         + 0.30 * (cost e / cost_per_1k slo)
                         + 0.15 * (energy e / energy_j_max slo)))"
proof -
  have m1: "max (latency_p95_ms slo) (1 / 1000000) = latency_p95_ms slo"
    using assms(1) by (rule max_absorb1)
  have m2: "max (cost_per_1k slo) (1 / 1000000000) = cost_per_1k slo"
    using assms(2) by (rule max_absorb1)
  have m3: "max (energy_j_max slo) (1 / 1000000000) = energy_j_max slo"
    using assms(3) by (rule max_absorb1)
  show ?thesis
    unfolding score_def Let_def m1 m2 m3 using assms(4) by (rule if_not_P)
qed

text \<open>
  Claim C6, as the code has it. \<open>score\<close> does not divide by the SLO bounds themselves
  but by the bounds floored at \<open>1e-6\<close> (latency) and \<open>1e-9\<close> (cost, energy): below a
  floor the claimed formula and the code differ.
\<close>

theorem score_floor_differs:
  "score \<lparr>lat_ms = 1, cost = 1, energy = 1\<rparr>
         \<lparr>latency_p95_ms = 1 / 10000000, cost_per_1k = 1, energy_j_max = 1\<rparr>
     = Inr (100 / 55000045)
   \<and> 1 / (0.55 * (1 / (1 / 10000000)) + 0.30 * (1 / 1) + 0.15 * (1 / 1))
     = (100 / 550000045 :: real)"
  by (simp add: score_def)

text \<open>
  Claim C6, amended: for every estimate and SLO, \<open>score\<close> is
  \<open>1 / (0.55 * lat_ms / max(latency_p95_ms, 1e-6) + 0.30 * cost / max(cost_per_1k, 1e-9)
  + 0.15 * energy / max(energy_j_max, 1e-9))\<close>, raising ZeroDivisionError when that sum
  is zero; it is the unfloored formula of the claim whenever the three SLO bounds are at or
  above their floors; and \<open>ConstrainedBestScore.decide\<close> returns the first entry of the
  scored safe list whose score is maximal: every earlier entry scores strictly less, every
  later one at most as much.
\<close>

theorem score_floored_first_max_wins:
  "score e slo =
     (if 0.55 * (lat_ms e / max (latency_p95_ms slo) (1 / 1000000))
           + 0.30 * (cost e / max (cost_per_1k slo) (1 / 1000000000))
           + 0.15 * (energy e / max (energy_j_max slo) (1 / 1000000000)) = 0
      then Inl ZeroDivisionError
      else Inr (1 / (0.55 * (lat_ms e / max (latency_p95_ms slo) (1 / 1000000))
                      + 0.30 * (cost e / max (cost_per_1k slo) (1 / 1000000000))
                      + 0.15 * (energy e / max (energy_j_max slo) (1 / 1000000000)))))
   \<and> (1 / 1000000 \<le> latency_p95_ms slo \<and> 1 / 1000000000 \<le> cost_per_1k slo
        \<and> 1 / 1000000000 \<le> energy_j_max slo
        \<and> 0.55 * (lat_ms e / latency_p95_ms slo) + 0.30 * (cost e / cost_per_1k slo)
             + 0.15 * (energy e / energy_j_max slo) \<noteq> 0
      \<longrightarrow> score e slo
            = Inr (1 / (0.55 * (lat_ms e / latency_p95_ms slo)
                         + 0.30 * (cost e / cost_per_1k slo)
                         + 0.15 * (energy e / energy_j_max slo))))
   \<and> (cbs_safe sf slo ctx = Inr safe \<and> score_all slo safe = Inr scored
      \<longrightarrow> (\<exists>pre t e' s post.
             scored = pre @ (t, e', s) # post
             \<and> cbs_decide sf slo ctx = Inr (t, \<lparr>target = t, expected = e', score_val = s\<rparr>)
             \<and> (\<forall>y\<in>set pre. snd (snd y) < s)
             \<and> (\<forall>y\<in>set post. snd (snd y) \<le> s)))"
  (is "?A \<and> (?B1 \<longrightarrow> ?B2) \<and> (?C1 \<longrightarrow> ?C2)")
proof -
  have a: ?A by (rule score_unfold)
  have b: "?B1 \<longrightarrow> ?B2"
  proof
    assume h: ?B1
    from h have h1: "1 / 1000000 \<le> latency_p95_ms slo" by (rule conjunct1)
    from h have h': "1 / 1000000000 \<le> cost_per_1k slo
        \<and> 1 / 1000000000 \<le> energy_j_max slo
        \<and> 0.55 * (lat_ms e / latency_p95_ms slo) + 0.30 * (cost e / cost_per_1k slo)
             + 0.15 * (energy e / energy_j_max slo) \<noteq> 0" by (rule conjunct2)
    from h' have h2: "1 / 1000000000 \<le> cost_per_1k slo" by (rule conjunct1)
    from h' have h'': "1 / 1000000000 \<le> energy_j_max slo
        \<and> 0.55 * (lat_ms e / latency_p95_ms slo) + 0.30 * (cost e / cost_per_1k slo)
             + 0.15 * (energy e / energy_j_max slo) \<noteq> 0" by (rule conjunct2)
    from h'' have h3: "1 / 1000000000 \<le> energy_j_max slo" by (rule conjunct1)
    from h'' have h4: "0.55 * (lat_ms e / latency_p95_ms slo) + 0.30 * (cost e / cost_per_1k slo)
             + 0.15 * (energy e / energy_j_max slo) \<noteq> 0" by (rule conjunct2)
    from h1 h2 h3 h4 show ?B2 by (rule score_unfloored)
  qed
  have c: "?C1 \<longrightarrow> ?C2"
  proof
    assume h: ?C1
    from h have "cbs_safe sf slo ctx = Inr safe" by (rule conjunct1)
    moreover from h have "score_all slo safe = Inr scored" by (rule conjunct2)
    ultimately show ?C2 by (rule cbs_decide_first_max)
  qed
  from a b c show ?thesis by (intro conjI)
qed

theorem score_floored_first_max_wins_witness:
  "cbs_safe reject_strings \<lparr>latency_p95_ms = 49.5, cost_per_1k = 0.00036, energy_j_max = 4.05\<rparr>
       Map.empty
     = Inr [(''photonic'', \<lparr>lat_ms = 0.5, cost = 0.00024, energy = 1.35\<rparr>),
            (''cpu'', \<lparr>lat_ms = 5, cost = 0.00012, energy = 2.7\<rparr>)]
   \<and> score_all \<lparr>latency_p95_ms = 49.5, cost_per_1k = 0.00036, energy_j_max = 4.05\<rparr>
         [(''photonic'', \<lparr>lat_ms = 0.5, cost = 0.00024, energy = 1.35\<rparr>),
          (''cpu'', \<lparr>lat_ms = 5, cost = 0.00012, energy = 2.7\<rparr>)]
     = Inr [(''photonic'', \<lparr>lat_ms = 0.5, cost = 0.00024, energy = 1.35\<rparr>, 90 / 23),
            (''cpu'', \<lparr>lat_ms = 5, cost = 0.00012, energy = 2.7\<rparr>, 90 / 23)]
   \<and> cbs_decide reject_strings
         \<lparr>latency_p95_ms = 49.5, cost_per_1k = 0.00036, energy_j_max = 4.05\<rparr> Map.empty
     = Inr (''photonic'',
            \<lparr>target = ''photonic'',
             expected = \<lparr>lat_ms = 0.5, cost = 0.00024, energy = 1.35\<rparr>,
             score_val = 90 / 23\<rparr>)"
proof -
  let ?slo = "\<lparr>latency_p95_ms = 49.5, cost_per_1k = 0.00036, energy_j_max = 4.05\<rparr>"
  let ?e1 = "\<lparr>lat_ms = 0.5, cost = 0.00024, energy = 1.35\<rparr>"
  let ?e3 = "\<lparr>lat_ms = 5, cost = 0.00012, energy = 2.7\<rparr>"
  have safe: "cbs_safe reject_strings ?slo Map.empty = Inr [(''photonic'', ?e1), (''cpu'', ?e3)]"
    by (simp add: sched_eval)
  have sc: "score_all ?slo [(''photonic'', ?e1), (''cpu'', ?e3)]
              = Inr [(''photonic'', ?e1, 90 / 23), (''cpu'', ?e3, 90 / 23)]"
    by (simp add: score_def bindE_def)
  have fl: "1 / 1000000 \<le> latency_p95_ms ?slo \<and> 1 / 1000000000 \<le> cost_per_1k ?slo
        \<and> 1 / 1000000000 \<le> energy_j_max ?slo
        \<and> 0.55 * (lat_ms ?e1 / latency_p95_ms ?slo) + 0.30 * (cost ?e1 / cost_per_1k ?slo)
             + 0.15 * (energy ?e1 / energy_j_max ?slo) \<noteq> 0"
    by simp
  note inst = score_floored_first_max_wins
    [of "?e1" "?slo" reject_strings Map.empty "[(''photonic'', ?e1), (''cpu'', ?e3)]"
        "[(''photonic'', ?e1, 90 / 23), (''cpu'', ?e3, 90 / 23)]"]
  from inst [THEN conjunct2, THEN conjunct1, THEN mp, OF fl]
  have unfloored: "score ?e1 ?slo
            = Inr (1 / (0.55 * (lat_ms ?e1 / latency_p95_ms ?slo)
                         + 0.30 * (cost ?e1 / cost_per_1k ?slo)
                         + 0.15 * (energy ?e1 / energy_j_max ?slo)))" .
  from inst [THEN conjunct2, THEN conjunct2, THEN mp, OF conjI [OF safe sc]]
  obtain pre t e' s post where
    r: "[(''photonic'', ?e1, 90 / 23), (''cpu'', ?e3, 90 / 23)] = pre @ (t, e', s) # post"
       "cbs_decide reject_strings ?slo Map.empty
          = Inr (t, \<lparr>target = t, expected = e', score_val = s\<rparr>)"
       "\<forall>y\<in>set pre. snd (snd y) < s"
    by (elim exE conjE)
  have "pre = []"
  proof (cases pre)
    case Nil then show ?thesis .
  next
    case (Cons p ps)
    with r(1) have p: "p = (''photonic'', ?e1, 90 / 23)" by simp
    have "s = 90 / 23"
    proof (cases ps)
      case Nil with r(1) Cons show ?thesis by simp
    next
      case (Cons q qs) with r(1) \<open>pre = p # ps\<close> show ?thesis by simp
    qed
    with r(3) Cons p show ?thesis by simp
  qed
  with r(1) have "t = ''photonic''" "e' = ?e1" "s = 90 / 23" by simp_all
  with r(2) safe sc show ?thesis by simp
qed

lemma eg_ests_eq:
  "\<forall>c\<in>set cs. estimate sf c ctx = Inr (RealEst (E c)) \<Longrightarrow>
   eg_ests sf ctx cs = Inr (map (\<lambda>c. (c, RealEst (E c))) cs)"
  by (induction cs) (simp_all add: bindE_def)

lemma map_of_ests:
  "c \<in> set cs \<Longrightarrow> map_of (map (\<lambda>c. (c, RealEst (E c))) cs) c = Some (RealEst (E c))"
  by (induction cs) auto

lemma eg_filter_eq:
  "\<forall>c\<in>set cs. ests c = Some (RealEst (E c)) \<Longrightarrow>
   eg_filter slo ests cs = Inr (filter (\<lambda>c. safe_est (E c) slo) cs)"
  by (induction cs) (simp_all add: bindE_def subscript_def is_safe_def)

lemma eg_safe_eq:
  assumes "\<forall>c\<in>set cands. ests c = Some (RealEst (E c))"
  shows "eg_safe slo ests
     = Inr (if \<exists>c\<in>set cands. safe_est (E c) slo
            then filter (\<lambda>c. safe_est (E c) slo) cands else cands)"
  using eg_filter_eq [OF assms, of slo]
  by (auto simp: eg_safe_def bindE_def filter_empty_conv)

lemma eg_vals_eq:
  "\<forall>c\<in>set cs. ests c = Some (RealEst (E c)) \<and> score (E c) slo = Inr (S c)
       \<and> mu s c = Some (M c) \<and> n s c = Some (N c) \<and> 1 \<le> N c \<Longrightarrow>
   eg_vals s slo ests cs = Inr (map (\<lambda>c. (c, S c + M c / real_of_int (N c))) cs)"
  by (induction cs) (auto simp: bindE_def subscript_def real_est_def py_div_def)

lemma eg_decide_explore:
  assumes "eg_ests sf ctx cands = Inr items"
    and "eg_safe slo (map_of items) = Inr safe"
    and "u < eps s"
    and "map_of items (safe ! (k mod length safe)) = Some (RealEst e)"
  shows "eg_decide sf s slo ctx u k
           = Inr (safe ! (k mod length safe),
                  \<lparr>eg_target = safe ! (k mod length safe), eg_expected = e,
                   mode = ''explore'', canary_fraction = canary s\<rparr>)"
  using assms by (simp add: eg_decide_def bindE_def Let_def subscript_def real_est_def)

lemma eg_decide_exploit:
  assumes "eg_ests sf ctx cands = Inr items"
    and "eg_safe slo (map_of items) = Inr safe"
    and "\<not> u < eps s"
    and "eg_vals s slo (map_of items) safe = Inr vals"
    and "py_max snd vals = Inr (t, v)"
    and "map_of items t = Some (RealEst e)"
  shows "eg_decide sf s slo ctx u k
           = Inr (t, \<lparr>eg_target = t, eg_expected = e,
                      mode = ''exploit'', canary_fraction = canary s\<rparr>)"
  using assms by (simp add: eg_decide_def bindE_def Let_def subscript_def real_est_def)

lemma first_max_of_map:
  assumes "xs \<noteq> []"
  shows "\<exists>pre t post. xs = pre @ t # post \<and> py_max snd (map (\<lambda>c. (c, V c)) xs) = Inr (t, V t)
           \<and> (\<forall>c\<in>set pre. V c < V t) \<and> (\<forall>c\<in>set post. V c \<le> V t)"
proof -
  from assms have "map (\<lambda>c. (c, V c)) xs \<noteq> []" by simp
  from py_max_first_max [OF this, of snd] obtain pre' m post' where
    h: "map (\<lambda>c. (c, V c)) xs = pre' @ m # post'"
       "py_max snd (map (\<lambda>c. (c, V c)) xs) = Inr m"
       "\<forall>y\<in>set pre'. snd y < snd m" "\<forall>y\<in>set post'. snd y \<le> snd m"
    by blast
  from h(1) obtain pre t post where
    s: "xs = pre @ t # post" "pre' = map (\<lambda>c. (c, V c)) pre" "m = (t, V t)"
       "post' = map (\<lambda>c. (c, V c)) post"
    by (auto simp: map_eq_append_conv map_eq_Cons_conv)
  from h(3) s have "\<forall>c\<in>set pre. V c < V t" by simp
  moreover from h(4) s have "\<forall>c\<in>set post. V c \<le> V t" by simp
  ultimately show ?thesis using s(1,3) h(2) by blast
qed

lemma observe_keeps_eps: "eps (snd (observe s t a)) = eps s"
  by (auto simp: observe_def Let_def split: option.splits)

lemma reachable_entries:
  assumes "reachable s"
  shows "\<exists>M N. \<forall>c\<in>set cands. mu s c = Some (M c) \<and> n s c = Some (N c) \<and> 1 \<le> N c"
proof -
  have "\<forall>c\<in>set cands. \<exists>m. mu s c = Some m"
    using reachable_dom [OF assms] by blast
  then obtain M where M: "\<forall>c\<in>set cands. mu s c = Some (M c)" by (rule bchoice [THEN exE])
  have "\<forall>c\<in>set cands. \<exists>k. n s c = Some k \<and> 1 \<le> k"
    using reachable_count_positive [OF assms] by blast
  then obtain N where N: "\<forall>c\<in>set cands. n s c = Some (N c) \<and> 1 \<le> N c"
    by (rule bchoice [THEN exE])
  from M N have "\<forall>c\<in>set cands. mu s c = Some (M c) \<and> n s c = Some (N c) \<and> 1 \<le> N c" by blast
  then show ?thesis by blast
qed

text \<open>
  Claim C9, as the code has it. With \<open>eps = 0\<close> the explore branch is indeed never
  taken, but \<open>decide\<close> does not always return: with a negative \<open>batch_size\<close> every
  estimate is complex and \<open>_safe\<close> raises TypeError before the branch is reached.
\<close>

theorem eg_decide_negative_batch:
  "eg_decide reject_strings (eg_init 0 (1 / 20)) demo_slo [''batch_size'' \<mapsto> PFloat (- 1)]
     (1 / 2) 0
   = Inl (TypeError ''<= not supported between complex and float'')"
  by (simp add: eg_decide_def eg_safe_def subscript_def eg_init_def sched_eval)

text \<open>
  Claim C9, amended: on an instance reached by construction and \<open>observe\<close> calls, for
  every SLO with finite bounds, every context whose \<open>batch_size\<close>, \<open>tokens\<close> and
  \<open>concurrency\<close> (the defaults where absent) are converted by \<open>float\<close> to non-negative
  numbers, every draw \<open>u\<close> in \<open>[0, 1)\<close> and every draw of \<open>random.choice\<close>: the safe list is the candidates passing the safety test,
  or all three when none passes; with \<open>eps = 0\<close> the call returns, in mode \<open>exploit\<close>,
  the first target of the safe list that maximises \<open>score(estimate, slo) + mu / n\<close>; with
  \<open>eps = 1\<close> it returns, in mode \<open>explore\<close>, the drawn member of the safe list.
\<close>

theorem eg_decide_branches:
  assumes "py_float sf (dict_get ctx ''batch_size'' (PFloat 1.0)) = Inr b" and "0 \<le> b"
    and "py_float sf (dict_get ctx ''tokens'' (PFloat 512.0)) = Inr tk" and "0 \<le> tk"
    and "py_float sf (dict_get ctx ''concurrency'' (PFloat 1.0)) = Inr cc" and "0 \<le> cc"
    and "reachable s" and "0 \<le> u" and "u < 1"
  shows "\<exists>E S M N safe.
           (\<forall>c\<in>set cands. estimate sf c ctx = Inr (RealEst (E c))
                \<and> score (E c) slo = Inr (S c)
                \<and> mu s c = Some (M c) \<and> n s c = Some (N c) \<and> 1 \<le> N c)
         \<and> safe = (if \<exists>c\<in>set cands. lat_ms (E c) \<le> latency_p95_ms slo * 1.05
                                       \<and> energy (E c) \<le> energy_j_max slo * 1.1
                    then filter (\<lambda>c. lat_ms (E c) \<le> latency_p95_ms slo * 1.05
                                       \<and> energy (E c) \<le> energy_j_max slo * 1.1) cands
                    else cands)
         \<and> (eps s = 0 \<longrightarrow>
               (\<exists>pre t post info.
                  safe = pre @ t # post
                  \<and> eg_decide sf s slo ctx u k = Inr (t, info)
                  \<and> eg_target info = t \<and> eg_expected info = E t \<and> mode info = ''exploit''
                  \<and> (\<forall>c\<in>set pre. S c + M c / real_of_int (N c)
                                    < S t + M t / real_of_int (N t))
                  \<and> (\<forall>c\<in>set post. S c + M c / real_of_int (N c)
                                    \<le> S t + M t / real_of_int (N t))))
         \<and> (eps s = 1 \<longrightarrow>
               (\<exists>t info.
                  eg_decide sf s slo ctx u k = Inr (t, info)
                  \<and> t = safe ! (k mod length safe) \<and> t \<in> set safe
                  \<and> eg_target info = t \<and> eg_expected info = E t \<and> mode info = ''explore''))"
proof -
  from estimates_exist [OF assms(1-6)] obtain E where
    E: "\<forall>t\<in>set cands. estimate sf t ctx = Inr (RealEst (E t))
                 \<and> 0 < lat_ms (E t) \<and> 0 < cost (E t) \<and> 0 < energy (E t)" by (rule exE)
  then have est: "\<forall>c\<in>set cands. estimate sf c ctx = Inr (RealEst (E c))" by blast
  have "\<forall>c\<in>set cands. \<exists>sc. score (E c) slo = Inr sc"
  proof
    fix c assume "c \<in> set cands"
    with E have "0 < lat_ms (E c)" "0 < cost (E c)" "0 < energy (E c)" by blast+
    from score_defined [OF this] show "\<exists>sc. score (E c) slo = Inr sc" by blast
  qed
  then obtain S where S: "\<forall>c\<in>set cands. score (E c) slo = Inr (S c)"
    by (rule bchoice [THEN exE])
  from reachable_entries [OF assms(7)] obtain M N where
    MN: "\<forall>c\<in>set cands. mu s c = Some (M c) \<and> n s c = Some (N c) \<and> 1 \<le> N c"
    by (elim exE)
  define items where "items = map (\<lambda>c. (c, RealEst (E c))) cands"
  have items: "eg_ests sf ctx cands = Inr items"
    unfolding items_def by (rule eg_ests_eq [OF est])
  have lookup: "\<forall>c\<in>set cands. map_of items c = Some (RealEst (E c))"
    unfolding items_def by (simp add: map_of_ests)
  define safe where
    "safe = (if \<exists>c\<in>set cands. lat_ms (E c) \<le> latency_p95_ms slo * 1.05
                                       \<and> energy (E c) \<le> energy_j_max slo * 1.1
             then filter (\<lambda>c. lat_ms (E c) \<le> latency_p95_ms slo * 1.05
                                \<and> energy (E c) \<le> energy_j_max slo * 1.1) cands
             else cands)"
  have safe: "eg_safe slo (map_of items) = Inr safe"
    using eg_safe_eq [OF lookup, of slo] unfolding safe_est_def safe_def .
  have sub: "set safe \<subseteq> set cands"
    unfolding safe_def
    by (cases "\<exists>c\<in>set cands. lat_ms (E c) \<le> latency_p95_ms slo * 1.05
                              \<and> energy (E c) \<le> energy_j_max slo * 1.1") simp_all
  have ne: "safe \<noteq> []"
  proof (cases "\<exists>c\<in>set cands. lat_ms (E c) \<le> latency_p95_ms slo * 1.05
                              \<and> energy (E c) \<le> energy_j_max slo * 1.1")
    case True
    then show ?thesis by (simp add: safe_def filter_empty_conv)
  next
    case False
    have "cands \<noteq> []" by (simp add: cands_def)
    with False show ?thesis by (simp add: safe_def)
  qed
  have all: "\<forall>c\<in>set cands. estimate sf c ctx = Inr (RealEst (E c))
                \<and> score (E c) slo = Inr (S c)
                \<and> mu s c = Some (M c) \<and> n s c = Some (N c) \<and> 1 \<le> N c"
    using est S MN by blast
  have "\<forall>c\<in>set safe. map_of items c = Some (RealEst (E c)) \<and> score (E c) slo = Inr (S c)
       \<and> mu s c = Some (M c) \<and> n s c = Some (N c) \<and> 1 \<le> N c"
    using sub lookup S MN by blast
  then have vals: "eg_vals s slo (map_of items) safe
            = Inr (map (\<lambda>c. (c, S c + M c / real_of_int (N c))) safe)"
    by (rule eg_vals_eq)
  have exploit: "eps s = 0 \<longrightarrow>
               (\<exists>pre t post info.
                  safe = pre @ t # post
                  \<and> eg_decide sf s slo ctx u k = Inr (t, info)
                  \<and> eg_target info = t \<and> eg_expected info = E t \<and> mode info = ''exploit''
                  \<and> (\<forall>c\<in>set pre. S c + M c / real_of_int (N c)
                                    < S t + M t / real_of_int (N t))
                  \<and> (\<forall>c\<in>set post. S c + M c / real_of_int (N c)
                                    \<le> S t + M t / real_of_int (N t)))"
  proof
    assume "eps s = 0"
    with assms(8) have nu: "\<not> u < eps s" by simp
    from first_max_of_map [OF ne, of "\<lambda>c. S c + M c / real_of_int (N c)"]
    obtain pre t post where
      fm: "safe = pre @ t # post"
          "py_max snd (map (\<lambda>c. (c, S c + M c / real_of_int (N c))) safe)
             = Inr (t, S t + M t / real_of_int (N t))"
          "\<forall>c\<in>set pre. S c + M c / real_of_int (N c) < S t + M t / real_of_int (N t)"
          "\<forall>c\<in>set post. S c + M c / real_of_int (N c) \<le> S t + M t / real_of_int (N t)"
      by (elim exE conjE)
    from fm(1) have "t \<in> set safe" by simp
    with sub have "t \<in> set cands" by (rule subsetD)
    with lookup have lk: "map_of items t = Some (RealEst (E t))" by (rule bspec)
    let ?info = "\<lparr>eg_target = t, eg_expected = E t, mode = ''exploit'',
                  canary_fraction = canary s\<rparr>"
    have d: "eg_decide sf s slo ctx u k = Inr (t, ?info)"
      by (rule eg_decide_exploit [OF items safe nu vals fm(2) lk])
    have "safe = pre @ t # post
                  \<and> eg_decide sf s slo ctx u k = Inr (t, ?info)
                  \<and> eg_target ?info = t \<and> eg_expected ?info = E t \<and> mode ?info = ''exploit''
                  \<and> (\<forall>c\<in>set pre. S c + M c / real_of_int (N c)
                                    < S t + M t / real_of_int (N t))
                  \<and> (\<forall>c\<in>set post. S c + M c / real_of_int (N c)
                                    \<le> S t + M t / real_of_int (N t))"
      using fm(1) d fm(3) fm(4) by simp
    then show "\<exists>pre t post info.
                  safe = pre @ t # post
                  \<and> eg_decide sf s slo ctx u k = Inr (t, info)
                  \<and> eg_target info = t \<and> eg_expected info = E t \<and> mode info = ''exploit''
                  \<and> (\<forall>c\<in>set pre. S c + M c / real_of_int (N c)
                                    < S t + M t / real_of_int (N t))
                  \<and> (\<forall>c\<in>set post. S c + M c / real_of_int (N c)
                                    \<le> S t + M t / real_of_int (N t))"
      by (intro exI)
  qed
  have explore: "eps s = 1 \<longrightarrow>
               (\<exists>t info.
                  eg_decide sf s slo ctx u k = Inr (t, info)
                  \<and> t = safe ! (k mod length safe) \<and> t \<in> set safe
                  \<and> eg_target info = t \<and> eg_expected info = E t \<and> mode info = ''explore'')"
  proof
    assume "eps s = 1"
    with assms(9) have lt: "u < eps s" by simp
    let ?t = "safe ! (k mod length safe)"
    from ne have "k mod length safe < length safe" by simp
    then have mem: "?t \<in> set safe" by (rule nth_mem)
    with sub have "?t \<in> set cands" by (rule subsetD)
    with lookup have lk: "map_of items ?t = Some (RealEst (E ?t))" by (rule bspec)
    let ?info = "\<lparr>eg_target = ?t, eg_expected = E ?t, mode = ''explore'',
                  canary_fraction = canary s\<rparr>"
    have d: "eg_decide sf s slo ctx u k = Inr (?t, ?info)"
      by (rule eg_decide_explore [OF items safe lt lk])
    have "eg_decide sf s slo ctx u k = Inr (?t, ?info)
                  \<and> ?t = safe ! (k mod length safe) \<and> ?t \<in> set safe
                  \<and> eg_target ?info = ?t \<and> eg_expected ?info = E ?t \<and> mode ?info = ''explore''"
      using d mem by simp
    then show "\<exists>t info.
                  eg_decide sf s slo ctx u k = Inr (t, info)
                  \<and> t = safe ! (k mod length safe) \<and> t \<in> set safe
                  \<and> eg_target info = t \<and> eg_expected info = E t \<and> mode info = ''explore''"
      by (intro exI)
  qed
  show ?thesis
    apply (rule exI [of _ E])
    apply (rule exI [of _ S])
    apply (rule exI [of _ M])
    apply (rule exI [of _ N])
    apply (rule exI [of _ safe])
    apply (intro conjI)
       apply (rule all)
      apply (rule safe_def)
     apply (rule exploit)
    apply (rule explore)
    done
qed

theorem eg_decide_branches_witness:
  "eg_decide reject_strings (eg_init 0 (1 / 20))
       \<lparr>latency_p95_ms = 49.5, cost_per_1k = 0.00036, energy_j_max = 4.05\<rparr> Map.empty (1 / 2) 1
     = Inr (''photonic'',
            \<lparr>eg_target = ''photonic'',
             eg_expected = \<lparr>lat_ms = 0.5, cost = 0.00024, energy = 1.35\<rparr>,
             mode = ''exploit'', canary_fraction = 1 / 20\<rparr>)
   \<and> eg_decide reject_strings (eg_init 1 (1 / 20))
       \<lparr>latency_p95_ms = 49.5, cost_per_1k = 0.00036, energy_j_max = 4.05\<rparr> Map.empty (1 / 2) 1
     = Inr (''cpu'',
            \<lparr>eg_target = ''cpu'',
             eg_expected = \<lparr>lat_ms = 5, cost = 0.00012, energy = 2.7\<rparr>,
             mode = ''explore'', canary_fraction = 1 / 20\<rparr>)"
proof -
  let ?slo = "\<lparr>latency_p95_ms = 49.5, cost_per_1k = 0.00036, energy_j_max = 4.05\<rparr>"
  have b: "py_float reject_strings (dict_get Map.empty ''batch_size'' (PFloat 1.0)) = Inr 1"
    and t: "py_float reject_strings (dict_get Map.empty ''tokens'' (PFloat 512.0)) = Inr 512"
    and c: "py_float reject_strings (dict_get Map.empty ''concurrency'' (PFloat 1.0)) = Inr 1"
    by (simp_all add: py_float_def dict_get_def)
  have z: "(0::real) \<le> 1" "(0::real) \<le> 512" "(0::real) \<le> 1 / 2" "(1 / 2 ::real) < 1"
    by simp_all
  have r0: "reachable (eg_init 0 (1 / 20))" and r1: "reachable (eg_init 1 (1 / 20))"
    by (rule reachable.fresh)+
  have e0: "eps (eg_init 0 (1 / 20)) = 0" and e1: "eps (eg_init 1 (1 / 20)) = 1"
    by (simp_all add: eg_init_def)
  from eg_decide_branches [OF b z(1) t z(2) c z(1) r0 z(3) z(4), of "?slo" 1]
  obtain E S M N safe where
    "eps (eg_init 0 (1 / 20)) = 0 \<longrightarrow>
       (\<exists>pre t post info.
          safe = pre @ t # post
          \<and> eg_decide reject_strings (eg_init 0 (1 / 20)) ?slo Map.empty (1 / 2) 1 = Inr (t, info)
          \<and> eg_target info = t \<and> eg_expected info = E t \<and> mode info = ''exploit''
          \<and> (\<forall>c\<in>set pre. S c + M c / real_of_int (N c) < S t + M t / real_of_int (N t))
          \<and> (\<forall>c\<in>set post. S c + M c / real_of_int (N c) \<le> S t + M t / real_of_int (N t)))"
    by (elim exE conjE)
  from this [THEN mp, OF e0] obtain t0 info0 where
    x0: "eg_decide reject_strings (eg_init 0 (1 / 20)) ?slo Map.empty (1 / 2) 1 = Inr (t0, info0)"
        "mode info0 = ''exploit''"
    by (elim exE conjE)
  from eg_decide_branches [OF b z(1) t z(2) c z(1) r1 z(3) z(4), of "?slo" 1]
  obtain E' S' M' N' safe' where
    "eps (eg_init 1 (1 / 20)) = 1 \<longrightarrow>
       (\<exists>t info.
          eg_decide reject_strings (eg_init 1 (1 / 20)) ?slo Map.empty (1 / 2) 1 = Inr (t, info)
          \<and> t = safe' ! (1 mod length safe') \<and> t \<in> set safe'
          \<and> eg_target info = t \<and> eg_expected info = E' t \<and> mode info = ''explore'')"
    by (elim exE conjE)
  from this [THEN mp, OF e1] obtain t1 info1 where
    x1: "eg_decide reject_strings (eg_init 1 (1 / 20)) ?slo Map.empty (1 / 2) 1 = Inr (t1, info1)"
        "mode info1 = ''explore''"
    by (elim exE conjE)
  have ev0: "eg_decide reject_strings (eg_init 0 (1 / 20)) ?slo Map.empty (1 / 2) 1
     = Inr (''photonic'',
            \<lparr>eg_target = ''photonic'',
             eg_expected = \<lparr>lat_ms = 0.5, cost = 0.00024, energy = 1.35\<rparr>,
             mode = ''exploit'', canary_fraction = 1 / 20\<rparr>)"
    by (simp add: eg_decide_def eg_safe_def subscript_def eg_init_def py_div_def sched_eval)
  have ev1: "eg_decide reject_strings (eg_init 1 (1 / 20)) ?slo Map.empty (1 / 2) 1
     = Inr (''cpu'',
            \<lparr>eg_target = ''cpu'',
             eg_expected = \<lparr>lat_ms = 5, cost = 0.00012, energy = 2.7\<rparr>,
             mode = ''explore'', canary_fraction = 1 / 20\<rparr>)"
    by (simp add: eg_decide_def eg_safe_def subscript_def eg_init_def py_div_def sched_eval)
  from x0 x1 ev0 ev1 show ?thesis by simp
qed

end
